theory Spec2Isabelle
  imports Complex_Main "HOL-Library.Sublist" "HOL-Library.Product_Lexorder" "HOL-Library.AList"
begin

section \<open>Text primitives\<close>

text \<open>
  A Python string is modelled as a \<^typ>\<open>string\<close>, the list of its code points; a
  \<^typ>\<open>char\<close> is a code point below 256, so the texts of the model are those of Latin-1,
  and the character classes below are Python's on these code points. The tokenizer is also
  stated over any characters, with the classes as parameters. Python floats are modelled as
  \<^typ>\<open>real\<close> (rounding is not modelled, except where a parameter stands for it), and
  \<open>len(a) / len(b)\<close> is real division.
\<close>

definition code_point :: "char \<Rightarrow> nat" where
  "code_point c = of_char c"

text \<open>The classes \<open>[A-Z]\<close>, \<open>[a-z]\<close> and \<open>[0-9]\<close>.\<close>

definition is_upper :: "char \<Rightarrow> bool" where
  "is_upper c = (65 \<le> code_point c \<and> code_point c \<le> 90)"

definition is_lower :: "char \<Rightarrow> bool" where
  "is_lower c = (97 \<le> code_point c \<and> code_point c \<le> 122)"

definition is_digit :: "char \<Rightarrow> bool" where
  "is_digit c = (48 \<le> code_point c \<and> code_point c \<le> 57)"

text \<open>
  \<open>str.isalnum\<close>: the ASCII letters and digits, and among the code points from 128 to 255 the
  letters, the superscript digits and the fractions.
\<close>

definition is_alnum :: "char \<Rightarrow> bool" where
  "is_alnum c =
     (is_upper c \<or> is_lower c \<or> is_digit c
      \<or> code_point c = 170 \<or> code_point c = 178 \<or> code_point c = 179
      \<or> code_point c = 181 \<or> code_point c = 185 \<or> code_point c = 186
      \<or> (188 \<le> code_point c \<and> code_point c \<le> 190)
      \<or> (192 \<le> code_point c \<and> code_point c \<le> 214)
      \<or> (216 \<le> code_point c \<and> code_point c \<le> 246)
      \<or> (248 \<le> code_point c \<and> code_point c \<le> 255))"

text \<open>
  The regular expression class \<open>\w\<close> of a string pattern: the alphanumeric characters and
  the underscore.
\<close>

definition is_word :: "char \<Rightarrow> bool" where
  "is_word c = (is_alnum c \<or> code_point c = 95)"

text \<open>The class \<open>[.!?]\<close>.\<close>

definition is_terminator :: "char \<Rightarrow> bool" where
  "is_terminator c = (c = CHR ''.'' \<or> c = CHR ''!'' \<or> c = CHR ''?'')"

text \<open>
  What \<open>str.strip\<close> removes: tab to carriage return, the separators 28 to 31, the space, the
  next-line control 133 and the no-break space 160.
\<close>

definition is_space :: "char \<Rightarrow> bool" where
  "is_space c = ((9 \<le> code_point c \<and> code_point c \<le> 13)
     \<or> (28 \<le> code_point c \<and> code_point c \<le> 32)
     \<or> code_point c = 133 \<or> code_point c = 160)"

text \<open>
  \<open>str.lower\<close> on one character: the capital letters, ASCII and from 192 to 222 without the
  multiplication sign 215, move up by 32.
\<close>

definition lower_char :: "char \<Rightarrow> char" where
  "lower_char c =
     (if is_upper c \<or> (192 \<le> code_point c \<and> code_point c \<le> 214)
         \<or> (216 \<le> code_point c \<and> code_point c \<le> 222)
      then char_of (code_point c + 32) else c)"

definition lower :: "string \<Rightarrow> string" where
  "lower s = map lower_char s"

definition strip :: "string \<Rightarrow> string" where
  "strip s = rev (dropWhile is_space (rev (dropWhile is_space s)))"

text \<open>\<open>sub in s\<close> on strings.\<close>

fun contains :: "string \<Rightarrow> string \<Rightarrow> bool" where
  "contains sub [] = (sub = [])"
| "contains sub (c # cs) = (prefix sub (c # cs) \<or> contains sub cs)"

text \<open>
  \<open>re.findall(r'\b\w+\b', s)\<close>, with the word class \<open>\w\<close> as the parameter \<open>word\<close>
  (in Python it is Unicode-aware). A match starts at a word character that follows a non-word
  character or the start; the greedy \<open>\w+\<close> takes the whole run, and the closing \<open>\b\<close>
  holds there and after no shorter run, so the matches are the maximal runs of word characters,
  in order.
\<close>

function findall_runs :: "('c \<Rightarrow> bool) \<Rightarrow> 'c list \<Rightarrow> 'c list list" where
  "findall_runs word [] = []"
| "findall_runs word (c # cs) =
     (if word c then (c # takeWhile word cs) # findall_runs word (dropWhile word cs)
      else findall_runs word cs)"
  by pat_completeness auto
termination
  by (relation "measure (\<lambda>(word, cs). length cs)")
     (auto simp: le_imp_less_Suc length_dropWhile_le)

text \<open>The same on strings, with Python's word class.\<close>

definition findall_words :: "string \<Rightarrow> string list" where
  "findall_words s = findall_runs is_word s"

text \<open>
  \<open>re.findall(r'\b[A-Z][a-z]+\b', s)\<close>. Both \<open>\b\<close> lie at the ends of one maximal run of
  word characters (inside a run there is no boundary), so the matches are the runs that consist
  of an upper-case letter and at least one lower-case letter after it.
\<close>

fun is_entity :: "string \<Rightarrow> bool" where
  "is_entity [] = False"
| "is_entity (c # cs) = (is_upper c \<and> cs \<noteq> [] \<and> list_all is_lower cs)"

definition findall_entities :: "string \<Rightarrow> string list" where
  "findall_entities s = filter is_entity (findall_words s)"

text \<open>\<open>re.split(r'[.!?]+', s)\<close>: the pieces between the maximal runs of terminators.\<close>

function re_split :: "string \<Rightarrow> string \<Rightarrow> string list" where
  "re_split cur [] = [cur]"
| "re_split cur (c # cs) =
     (if is_terminator c then cur # re_split [] (dropWhile is_terminator cs)
      else re_split (cur @ [c]) cs)"
  by pat_completeness auto
termination
  by (relation "measure (\<lambda>(cur, cs). length cs)")
     (auto simp: le_imp_less_Suc length_dropWhile_le)

text \<open>
  \<open>sentences = re.split(r'[.!?]+', text)\<close> followed by
  \<open>[s.strip() for s in sentences if s.strip()]\<close>.
\<close>

definition sentences :: "string \<Rightarrow> string list" where
  "sentences s = filter (\<lambda>p. p \<noteq> []) (map strip (re_split [] s))"

section \<open>The tokenizer and the n-grams\<close>

text \<open>
  \<open>BasicEvaluator._tokenize\<close>; \<open>None\<close> is Python's \<open>None\<close>. The two library functions
  that it calls are parameters, over any type of characters: \<open>word\<close> is the class \<open>\w\<close> of the
  regular expression and \<open>lower_text\<close> is \<open>str.lower\<close>, which in Python are Unicode-aware
  (and \<open>str.lower\<close> may change the length of a text).
\<close>

definition tokenize_with ::
  "('c \<Rightarrow> bool) \<Rightarrow> ('c list \<Rightarrow> 'c list) \<Rightarrow> 'c list option \<Rightarrow> 'c list list" where
  "tokenize_with word lower_text text =
     (case text of
        None \<Rightarrow> []
      | Some s \<Rightarrow> if s = [] then [] else findall_runs word (lower_text s))"

text \<open>The tokenizer on strings, which the scorers below use.\<close>

definition tokenize :: "string option \<Rightarrow> string list" where
  "tokenize text = tokenize_with is_word lower text"

abbreviation tokens_of :: "string \<Rightarrow> string list" where
  "tokens_of s \<equiv> tokenize (Some s)"

text \<open>\<open>BasicEvaluator._get_ngrams\<close>.\<close>

definition get_ngrams :: "'a list \<Rightarrow> nat \<Rightarrow> 'a list list" where
  "get_ngrams tokens n =
     (if length tokens < n then []
      else map (\<lambda>i. take n (drop i tokens)) [0 ..< length tokens - n + 1])"

section \<open>ROUGE and BLEU\<close>

record rouge_scores =
  rouge1 :: real
  rouge2 :: real
  rougeL :: real

text \<open>
  One row of the table of \<open>lcs_length\<close>: \<open>lcs_row xi ys prev left\<close> is \<open>dp[i][j..]\<close>, where
  \<open>prev\<close> is \<open>dp[i-1][j-1..]\<close>, \<open>left\<close> is \<open>dp[i][j-1]\<close> and \<open>ys\<close> is \<open>y[j-1..]\<close>.
\<close>

fun lcs_row :: "'a \<Rightarrow> 'a list \<Rightarrow> nat list \<Rightarrow> nat \<Rightarrow> nat list" where
  "lcs_row xi (y # ys) (d # u # prev) left =
     (let v = (if xi = y then d + 1 else max u left) in v # lcs_row xi ys (u # prev) v)"
| "lcs_row xi ys prev left = []"

definition lcs_length :: "'a list \<Rightarrow> 'a list \<Rightarrow> nat" where
  "lcs_length x y =
     last (foldl (\<lambda>prev xi. 0 # lcs_row xi y prev 0) (replicate (length y + 1) 0) x)"

text \<open>\<open>BasicEvaluator._calculate_lcs_f1\<close>.\<close>

definition calculate_lcs_f1 :: "string list \<Rightarrow> string list \<Rightarrow> real" where
  "calculate_lcs_f1 candidate_tokens reference_tokens =
     (let lcs_len = lcs_length candidate_tokens reference_tokens in
      if candidate_tokens = [] \<or> reference_tokens = [] then 0
      else
        let precision = real lcs_len / real (length candidate_tokens);
            recall = real lcs_len / real (length reference_tokens)
        in if precision + recall = 0 then 0
           else 2 * (precision * recall) / (precision + recall))"

text \<open>The precision, recall and F1 of two sets, as \<open>_calculate_rouge\<close> computes them twice.\<close>

definition set_f1 :: "'a set \<Rightarrow> 'a set \<Rightarrow> real" where
  "set_f1 candidate reference =
     (let overlap = candidate \<inter> reference;
          precision = (if candidate \<noteq> {} then real (card overlap) / real (card candidate) else 0);
          recall = (if reference \<noteq> {} then real (card overlap) / real (card reference) else 0)
      in if precision + recall > 0 then 2 * (precision * recall) / (precision + recall) else 0)"

text \<open>\<open>BasicEvaluator._calculate_rouge\<close>.\<close>

definition calculate_rouge :: "string \<Rightarrow> string \<Rightarrow> rouge_scores" where
  "calculate_rouge candidate reference =
     (let candidate_tokens = tokens_of candidate;
          reference_tokens = tokens_of reference
      in if candidate_tokens = [] \<or> reference_tokens = []
         then \<lparr>rouge1 = 0, rouge2 = 0, rougeL = 0\<rparr>
         else \<lparr>rouge1 = set_f1 (set candidate_tokens) (set reference_tokens),
               rouge2 = set_f1 (set (get_ngrams candidate_tokens 2))
                               (set (get_ngrams reference_tokens 2)),
               rougeL = calculate_lcs_f1 candidate_tokens reference_tokens\<rparr>)"

text \<open>
  The clipped precision of order \<open>n\<close> in \<open>_calculate_bleu\<close>; \<open>Counter\<close> is
  \<^const>\<open>count_list\<close>, and the sum runs over the distinct candidate n-grams.
\<close>

definition ngram_precision :: "string list \<Rightarrow> string list \<Rightarrow> nat \<Rightarrow> real" where
  "ngram_precision candidate_tokens reference_tokens n =
     (let candidate_ngrams = get_ngrams candidate_tokens n;
          reference_ngrams = get_ngrams reference_tokens n
      in if candidate_ngrams = [] then 0
         else
           let overlap = sum_list (map (\<lambda>g. min (count_list candidate_ngrams g)
                                                  (count_list reference_ngrams g))
                                       (remdups candidate_ngrams))
           in real overlap / real (length candidate_ngrams))"

text \<open>\<open>BasicEvaluator._calculate_bleu\<close>.\<close>

definition calculate_bleu :: "string \<Rightarrow> string \<Rightarrow> real" where
  "calculate_bleu candidate reference =
     (let candidate_tokens = tokens_of candidate;
          reference_tokens = tokens_of reference
      in if candidate_tokens = [] \<or> reference_tokens = [] then 0
         else
           let weights = [0.25, 0.25, 0.25, 0.25];
               precisions = map (ngram_precision candidate_tokens reference_tokens) [1 ..< 5];
               bleu_score = (if list_all (\<lambda>p. p > 0) precisions
                             then exp (sum_list (map (\<lambda>(w, p). w * ln p) (zip weights precisions)))
                             else 0);
               bp = min 1 (exp (1 - real (length reference_tokens) / real (length candidate_tokens)))
           in bp * bleu_score)"

section \<open>Heuristic scorers\<close>

text \<open>\<open>BasicEvaluator._calculate_meteor_approx\<close>.\<close>

definition calculate_meteor_approx :: "string \<Rightarrow> string \<Rightarrow> real" where
  "calculate_meteor_approx candidate reference =
     (let candidate_tokens = tokens_of candidate;
          reference_tokens = tokens_of reference
      in if candidate_tokens = [] \<or> reference_tokens = [] then 0
         else
           let candidate_set = set candidate_tokens;
               reference_set = set reference_tokens;
               matches = card (candidate_set \<inter> reference_set);
               precision = (if candidate_set \<noteq> {}
                            then real matches / real (card candidate_set) else 0);
               recall = (if reference_set \<noteq> {}
                         then real matches / real (card reference_set) else 0)
           in if precision + recall = 0 then 0
              else
                let f_mean = (10 * precision * recall) / (9 * precision + recall);
                    penalty = (if candidate_tokens \<noteq> []
                               then 0.5 * (real matches / real (length candidate_tokens))
                               else 0)
                in f_mean * (1 - penalty))"

definition connectors :: "string list" where
  "connectors = [''however'', ''therefore'', ''moreover'', ''furthermore'', ''additionally'',
     ''consequently'', ''meanwhile'', ''similarly'', ''in contrast'', ''as a result'']"

text \<open>
  \<open>BasicEvaluator._calculate_coherence\<close>. The pair \<open>(score, factors)\<close> is threaded through
  the three factors as the source updates the two variables.
\<close>

definition calculate_coherence :: "string \<Rightarrow> real" where
  "calculate_coherence text =
     (if text = [] then 0
      else
        let sents = sentences text in
        if length sents < 2 then 0.8
        else
          let entities = findall_entities text;
              (score1, factors1) =
                 (if entities \<noteq> []
                  then (real (card (set entities)) / real (length entities), 1::nat)
                  else (0, 0));
              connector_count = length (filter (\<lambda>c. contains c (lower text)) connectors);
              connector_score = min 1 (real connector_count / real (length sents));
              (score2, factors2) = (score1 + connector_score, factors1 + 1);
              lengths = map (\<lambda>s. length (tokens_of s)) sents;
              (score3, factors3) =
                 (if lengths \<noteq> []
                  then (score2 + (1 - (real (Max (set lengths)) - real (Min (set lengths)))
                                        / (real (Max (set lengths)) + 1)),
                        factors2 + 1)
                  else (score2, factors2))
          in if factors3 > 0 then score3 / real factors3 else 0.5)"

text \<open>Python's truth value of an optional string: \<open>None\<close> and \<open>""\<close> are false.\<close>

definition truthy :: "string option \<Rightarrow> bool" where
  "truthy t = (case t of None \<Rightarrow> False | Some s \<Rightarrow> s \<noteq> [])"

text \<open>\<open>BasicEvaluator._calculate_relevance\<close>; the context is \<open>None\<close> when the request has none.\<close>

definition calculate_relevance :: "string \<Rightarrow> string \<Rightarrow> string option \<Rightarrow> real" where
  "calculate_relevance question answer context =
     (if question = [] \<or> answer = [] then 0
      else
        let question_tokens = set (tokens_of question);
            answer_tokens = set (tokens_of answer);
            context_tokens = (if truthy context then set (tokenize context) else {});
            question_overlap = card (question_tokens \<inter> answer_tokens);
            question_relevance =
               (if question_tokens \<noteq> {}
                then real question_overlap / real (card question_tokens) else 0);
            context_relevance =
               (if context_tokens \<noteq> {}
                then real (card (context_tokens \<inter> answer_tokens)) / real (card context_tokens)
                else 0)
        in if truthy context then 0.7 * question_relevance + 0.3 * context_relevance
           else question_relevance)"

definition grammar_markers :: "string list" where
  "grammar_markers = [''the'', ''a'', ''an'', ''is'', ''are'', ''was'', ''were'', ''have'',
     ''has'', ''had'']"

text \<open>\<open>BasicEvaluator._calculate_fluency\<close>.\<close>

definition calculate_fluency :: "string \<Rightarrow> real" where
  "calculate_fluency text =
     (if text = [] then 0
      else
        let sents = sentences text;
            (score1, factors1) =
               (if sents \<noteq> []
                then
                  let avg_length = real (sum_list (map (\<lambda>s. length (tokens_of s)) sents))
                                     / real (length sents);
                      length_score = 1 - \<bar>avg_length - 15\<bar> / 20
                  in (max 0 length_score, 1::nat)
                else (0, 0));
            tokens = tokens_of text;
            (score2, factors2) =
               (if tokens \<noteq> []
                then
                  let grammar_ratio = real (length (filter (\<lambda>t. t \<in> set grammar_markers) tokens))
                                        / real (length tokens);
                      grammar_score = 1 - \<bar>grammar_ratio - 0.3\<bar> / 0.3
                  in (score1 + max 0 grammar_score, factors1 + 1)
                else (score1, factors1));
            punct_count = length (filter is_terminator text);
            sent_count = length sents;
            (score3, factors3) =
               (if sent_count > 0
                then
                  let punct_ratio = real punct_count / real sent_count;
                      punct_score = min 1 punct_ratio
                  in (score2 + punct_score, factors2 + 1)
                else (score2, factors2))
        in if factors3 > 0 then score3 / real factors3 else 0.5)"

definition stop_words :: "string list" where
  "stop_words = [''the'', ''a'', ''an'', ''and'', ''or'', ''but'', ''in'', ''on'', ''at'', ''to'',
     ''for'', ''of'', ''with'', ''by'', ''is'', ''are'', ''was'', ''were'', ''be'', ''been'',
     ''being'', ''have'', ''has'', ''had'', ''do'', ''does'', ''did'', ''will'', ''would'',
     ''could'', ''should'', ''may'', ''might'', ''must'', ''can'', ''this'', ''that'', ''these'',
     ''those'', ''i'', ''you'', ''he'', ''she'', ''it'', ''we'', ''they'', ''me'', ''him'',
     ''her'', ''us'', ''them'', ''my'', ''your'', ''his'', ''her'', ''its'', ''our'', ''their'']"

text \<open>\<open>BasicEvaluator._calculate_informativeness\<close>.\<close>

definition calculate_informativeness :: "string \<Rightarrow> real" where
  "calculate_informativeness text =
     (if text = [] then 0
      else
        let tokens = tokens_of text in
        if tokens = [] then 0
        else
          let unique_tokens = set tokens;
              vocabulary_richness = real (card unique_tokens) / real (length tokens);
              content_words = filter (\<lambda>t. t \<notin> set stop_words) tokens;
              content_ratio = (if tokens \<noteq> []
                               then real (length content_words) / real (length tokens) else 0);
              informativeness = 0.6 * vocabulary_richness + 0.4 * content_ratio
          in min 1 informativeness)"

text \<open>\<open>BasicEvaluator._calculate_length_ratio\<close>.\<close>

definition calculate_length_ratio :: "string \<Rightarrow> string \<Rightarrow> real" where
  "calculate_length_ratio candidate reference =
     (if reference = [] then 0
      else
        let candidate_length = length (tokens_of candidate);
            reference_length = length (tokens_of reference)
        in if reference_length = 0 then (if candidate_length = 0 then 1 else 0)
           else
             let ratio = real candidate_length / real reference_length
             in 1 - \<bar>1 - ratio\<bar> / max 1 ratio)"

text \<open>The Jaccard index \<open>len(overlap) / len(union) if union else 0.0\<close>.\<close>

definition jaccard :: "'a set \<Rightarrow> 'a set \<Rightarrow> real" where
  "jaccard a b = (if a \<union> b \<noteq> {} then real (card (a \<inter> b)) / real (card (a \<union> b)) else 0)"

text \<open>\<open>BasicEvaluator._calculate_word_overlap\<close>.\<close>

definition calculate_word_overlap :: "string \<Rightarrow> string \<Rightarrow> real" where
  "calculate_word_overlap candidate reference =
     (let candidate_tokens = set (tokens_of candidate);
          reference_tokens = set (tokens_of reference)
      in if candidate_tokens = {} \<and> reference_tokens = {} then 1
         else if candidate_tokens = {} \<or> reference_tokens = {} then 0
         else jaccard candidate_tokens reference_tokens)"

text \<open>The inner loop of \<open>_calculate_sentence_similarity\<close> over the reference sentences.\<close>

definition best_sim :: "string set \<Rightarrow> string list \<Rightarrow> real" where
  "best_sim cand_tokens reference_sentences =
     foldl (\<lambda>best ref_sent.
              let ref_tokens = set (tokens_of ref_sent)
              in if cand_tokens \<noteq> {} \<and> ref_tokens \<noteq> {}
                 then max best (jaccard cand_tokens ref_tokens) else best)
           0 reference_sentences"

text \<open>\<open>BasicEvaluator._calculate_sentence_similarity\<close>.\<close>

definition calculate_sentence_similarity :: "string \<Rightarrow> string \<Rightarrow> real" where
  "calculate_sentence_similarity candidate reference =
     (let candidate_sentences = sentences candidate;
          reference_sentences = sentences reference
      in if candidate_sentences = [] \<or> reference_sentences = [] then 0
         else
           let similarities = map (\<lambda>cand_sent. best_sim (set (tokens_of cand_sent))
                                                         reference_sentences)
                                  candidate_sentences
           in if similarities \<noteq> [] then sum_list similarities / real (length similarities)
              else 0)"

section \<open>The metrics engine\<close>

text \<open>
  The evaluation context that \<open>evaluate_single\<close> builds: the prompt and the answer are strings,
  the context and the expected answer are optional.
\<close>

record eval_context =
  ec_question :: string
  ec_answer :: string
  ec_context :: "string option"
  ec_expected_answer :: "string option"

definition available_metrics :: "string list" where
  "available_metrics = [''rouge1'', ''rouge2'', ''rougeL'', ''bleu'', ''meteor_approx'',
     ''coherence'', ''relevance'', ''fluency'', ''informativeness'',
     ''length_ratio'', ''word_overlap'', ''sentence_similarity'']"

text \<open>\<open>selected_metrics or self.available_metrics\<close>.\<close>

definition metrics_to_calculate :: "string list option \<Rightarrow> string list" where
  "metrics_to_calculate selected_metrics =
     (case selected_metrics of
        None \<Rightarrow> available_metrics
      | Some ms \<Rightarrow> if ms = [] then available_metrics else ms)"

text \<open>\<open>if cond: results[name] = score\<close>.\<close>

definition put_if :: "bool \<Rightarrow> string \<Rightarrow> real \<Rightarrow> (string \<rightharpoonup> real) \<Rightarrow> (string \<rightharpoonup> real)" where
  "put_if cond name score results = (if cond then results(name \<mapsto> score) else results)"

text \<open>
  \<open>BasicEvaluator.evaluate\<close>. The scorers above raise no exception on strings, so the
  \<open>except\<close> branch, which fills the missing metrics with 0, is never taken and the result is
  the mapping built by the \<open>try\<close> block.
\<close>

definition evaluate :: "eval_context \<Rightarrow> string list option \<Rightarrow> (string \<rightharpoonup> real)" where
  "evaluate ec selected_metrics =
     (let question = ec_question ec;
          answer = ec_answer ec;
          has_expected = truthy (ec_expected_answer ec);
          expected_answer = (case ec_expected_answer ec of None \<Rightarrow> [] | Some r \<Rightarrow> r);
          ms = metrics_to_calculate selected_metrics;
          r0 = (if has_expected \<and> list_ex (prefix ''rouge'') ms
                then
                  let rouge = calculate_rouge answer expected_answer
                  in put_if (''rougeL'' \<in> set ms) ''rougeL'' (rougeL rouge)
                       (put_if (''rouge2'' \<in> set ms) ''rouge2'' (rouge2 rouge)
                          (put_if (''rouge1'' \<in> set ms) ''rouge1'' (rouge1 rouge) Map.empty))
                else Map.empty);
          r1 = put_if (''bleu'' \<in> set ms \<and> has_expected) ''bleu''
                 (calculate_bleu answer expected_answer) r0;
          r2 = put_if (''meteor_approx'' \<in> set ms \<and> has_expected) ''meteor_approx''
                 (calculate_meteor_approx answer expected_answer) r1;
          r3 = put_if (''coherence'' \<in> set ms) ''coherence'' (calculate_coherence answer) r2;
          r4 = put_if (''relevance'' \<in> set ms) ''relevance''
                 (calculate_relevance question answer (ec_context ec)) r3;
          r5 = put_if (''fluency'' \<in> set ms) ''fluency'' (calculate_fluency answer) r4;
          r6 = put_if (''informativeness'' \<in> set ms) ''informativeness''
                 (calculate_informativeness answer) r5;
          r7 = put_if (''length_ratio'' \<in> set ms \<and> has_expected) ''length_ratio''
                 (calculate_length_ratio answer expected_answer) r6;
          r8 = put_if (''word_overlap'' \<in> set ms \<and> has_expected) ''word_overlap''
                 (calculate_word_overlap answer expected_answer) r7;
          r9 = put_if (''sentence_similarity'' \<in> set ms \<and> has_expected) ''sentence_similarity''
                 (calculate_sentence_similarity answer expected_answer) r8
      in r9)"

section \<open>The orchestrator\<close>

text \<open>
  The values of a result dictionary (\<open>Dict[str, Any]\<close>): \<open>None\<close>, booleans, integers, floats
  and strings. A dictionary is the list of its items in insertion order, and
  \<open>d[k] = v\<close> is \<^const>\<open>AList.update\<close>.
\<close>

datatype pyvalue = PNone | PBool bool | PInt int | PFloat real | PStr string

type_synonym pydict = "(string \<times> pyvalue) list"

text \<open>
  A framework: its \<open>evaluate\<close> call on a context and a selection either raises an exception,
  of which \<open>str(e)\<close> is kept, or returns a dictionary of scores.
\<close>

type_synonym evaluator = "eval_context \<Rightarrow> string list option \<Rightarrow> string + pydict"

record aggregated_result =
  automatic_metrics :: pydict
  framework_scores :: "(string \<times> pydict) list"

text \<open>
  \<open>EvaluationService._run_framework_evaluation\<close>: the evaluator's result, or its exception
  raised again after logging.
\<close>

definition run_framework_evaluation ::
  "string \<Rightarrow> evaluator \<Rightarrow> eval_context \<Rightarrow> string list option \<Rightarrow> string + pydict" where
  "run_framework_evaluation framework_name evaluator eval_ctx selected_metrics =
     (case evaluator eval_ctx selected_metrics of
        Inl e \<Rightarrow> Inl e
      | Inr result \<Rightarrow> Inr result)"

text \<open>\<open>d.update(other)\<close>.\<close>

definition dict_update :: "pydict \<Rightarrow> pydict \<Rightarrow> pydict" where
  "dict_update d other = foldl (\<lambda>m (k, v). AList.update k v m) d other"

text \<open>\<open>{"error": str(result)}\<close>.\<close>

definition error_entry :: "string \<Rightarrow> pydict" where
  "error_entry msg = [(''error'', PStr msg)]"

text \<open>
  One round of the loop of \<open>_run_evaluations\<close> over the frameworks and their results.
\<close>

definition process_result ::
  "aggregated_result \<Rightarrow> (string \<times> evaluator) \<times> (string + pydict) \<Rightarrow> aggregated_result" where
  "process_result acc item =
     (case item of ((framework_name, evaluator), result) \<Rightarrow>
        (case result of
           Inl e \<Rightarrow>
             acc\<lparr>framework_scores :=
                   AList.update framework_name (error_entry e) (framework_scores acc)\<rparr>
         | Inr r \<Rightarrow>
             acc\<lparr>framework_scores := AList.update framework_name r (framework_scores acc),
                  automatic_metrics :=
                    (if framework_name = ''basic'' then dict_update (automatic_metrics acc) r
                     else automatic_metrics acc)\<rparr>))"

text \<open>
  \<open>EvaluationService._run_evaluations\<close>. The registry \<open>self.evaluators\<close> is the list of its
  items, with distinct names; \<open>asyncio.gather(..., return_exceptions=True)\<close> yields one result
  or exception per framework, in the order of the registry. No statement of the method raises,
  so the model returns the aggregated result itself.
\<close>

definition run_evaluations ::
  "(string \<times> evaluator) list \<Rightarrow> eval_context \<Rightarrow> string list option \<Rightarrow> aggregated_result" where
  "run_evaluations evaluators eval_ctx selected_metrics =
     (let framework_results =
            map (\<lambda>(framework_name, evaluator).
                   run_framework_evaluation framework_name evaluator eval_ctx selected_metrics)
                evaluators
      in foldl process_result \<lparr>automatic_metrics = [], framework_scores = []\<rparr>
           (zip evaluators framework_results))"

text \<open>The entry that the loop stores for one framework result.\<close>

definition entry_of :: "string + pydict \<Rightarrow> pydict" where
  "entry_of result = (case result of Inl e \<Rightarrow> error_entry e | Inr r \<Rightarrow> r)"

text \<open>A context for concrete runs.\<close>

definition demo_context :: eval_context where
  "demo_context = \<lparr>ec_question = ''q'', ec_answer = ''an answer'', ec_context = None,
                    ec_expected_answer = None\<rparr>"

section \<open>Bulk evaluation\<close>

text \<open>The exception of \<open>range\<close> on a zero step.\<close>

datatype py_error = ValueError

text \<open>
  One element of the output of \<open>evaluate_bulk\<close>: the result of \<open>evaluate_single\<close>, or
  the error record with the prefix of its \<open>id\<close>, the index \<open>i + j\<close> in its \<open>id\<close>, the
  \<open>error\<close> text and the \<open>evaluation_data\<close>. The \<open>id\<close> also holds the time in
  milliseconds, which is not modelled; the \<open>status\<close> is \<open>bulk_status\<close>.
\<close>

datatype ('c, 'r) bulk_result =
    Evaluated 'r
  | FailedItem (err_id: string) (err_index: nat) (err_message: string) (err_data: 'c)

definition bulk_status :: "('c, 'r) bulk_result \<Rightarrow> string" where
  "bulk_status item = (case item of Evaluated r \<Rightarrow> ''completed'' | FailedItem p i e c \<Rightarrow> ''failed'')"

text \<open>\<open>range(0, stop, step)\<close> for \<open>stop \<ge> 0\<close>.\<close>

definition py_range :: "nat \<Rightarrow> int \<Rightarrow> py_error + nat list" where
  "py_range stop step =
     (if step = 0 then Inl ValueError
      else if step < 0 then Inr []
      else Inr (map (\<lambda>k. k * nat step) [0 ..< (stop + nat step - 1) div nat step]))"

text \<open>
  The body of the loop of \<open>evaluate_bulk\<close> for the batch that starts at \<open>i\<close>. The items of
  the batch run through \<open>asyncio.gather(..., return_exceptions=True)\<close>. The progress callback
  is awaited inside the \<open>try\<close>: when it raises, the \<open>except\<close> branch appends one
  \<open>batch_error\<close> record per item after the records that are already there.
\<close>

definition process_batch ::
  "('c \<Rightarrow> string + 'r) \<Rightarrow> 'c list \<Rightarrow> nat \<Rightarrow> (nat \<Rightarrow> nat \<Rightarrow> real \<Rightarrow> string + unit) option
   \<Rightarrow> ('c, 'r) bulk_result list \<Rightarrow> nat \<Rightarrow> ('c, 'r) bulk_result list" where
  "process_batch evaluate_single evaluations batch_size progress_callback results i =
     (let total_items = length evaluations;
          batch = take batch_size (drop i evaluations);
          batch_results = map evaluate_single batch;
          results1 = results @
            map (\<lambda>(j, result).
                   case result of
                     Inl e \<Rightarrow> FailedItem ''error'' (i + j) e (batch ! j)
                   | Inr r \<Rightarrow> Evaluated r)
                (enumerate 0 batch_results);
          processed_items = min (i + batch_size) total_items;
          progress = real processed_items / real total_items * 100;
          called = (case progress_callback of
                      None \<Rightarrow> Inr ()
                    | Some callback \<Rightarrow> callback processed_items total_items progress)
      in case called of
           Inr u \<Rightarrow> results1
         | Inl e \<Rightarrow>
             results1 @
               map (\<lambda>j. FailedItem ''batch_error'' (i + j) (''Batch processing failed: '' @ e)
                          (batch ! j))
                   [0 ..< length batch])"

text \<open>
  \<open>EvaluationService.evaluate_bulk\<close>, with \<open>evaluate_single\<close> (at the given selection) as a
  parameter that fails with the text of its exception or returns a result.
\<close>

definition evaluate_bulk ::
  "('c \<Rightarrow> string + 'r) \<Rightarrow> 'c list \<Rightarrow> int \<Rightarrow> (nat \<Rightarrow> nat \<Rightarrow> real \<Rightarrow> string + unit) option
   \<Rightarrow> py_error + ('c, 'r) bulk_result list" where
  "evaluate_bulk evaluate_single evaluations batch_size progress_callback =
     (case py_range (length evaluations) batch_size of
        Inl err \<Rightarrow> Inl err
      | Inr starts \<Rightarrow>
          Inr (foldl (process_batch evaluate_single evaluations (nat batch_size) progress_callback)
                 [] starts))"

text \<open>The output element for the context at one position.\<close>

definition bulk_item :: "('c \<Rightarrow> string + 'r) \<Rightarrow> nat \<times> 'c \<Rightarrow> ('c, 'r) bulk_result" where
  "bulk_item evaluate_single p =
     (case evaluate_single (snd p) of
        Inl e \<Rightarrow> FailedItem ''error'' (fst p) e (snd p)
      | Inr r \<Rightarrow> Evaluated r)"

text \<open>There is no progress callback, or it never raises.\<close>

definition callback_returns :: "(nat \<Rightarrow> nat \<Rightarrow> real \<Rightarrow> string + unit) option \<Rightarrow> bool" where
  "callback_returns progress_callback =
     (case progress_callback of None \<Rightarrow> True | Some callback \<Rightarrow> \<forall>p t g. callback p t g = Inr ())"

section \<open>The comparator\<close>

text \<open>
  The entries that \<open>compare_models\<close> builds: a completed entry with all its keys, or a failed
  one with the model name and the error text. A completed entry always has a response time, so
  the default \<open>float('inf')\<close> of \<open>_determine_winner\<close> is never used; \<open>None\<close> is a cost that
  is absent or \<open>None\<close>.
\<close>

record completed_comparison =
  cmp_model_name :: string
  cmp_response :: string
  cmp_metrics :: pydict
  cmp_framework_scores :: "(string \<times> pydict) list"
  cmp_response_time :: real
  cmp_tokens_used :: nat
  cmp_cost :: "real option"

datatype comparison =
    CompletedEntry completed_comparison
  | FailedEntry string string

text \<open>The \<open>status\<close> key.\<close>

definition status :: "comparison \<Rightarrow> string" where
  "status c = (case c of CompletedEntry e \<Rightarrow> ''completed'' | FailedEntry name err \<Rightarrow> ''failed'')"

text \<open>
  \<open>isinstance(score, (int, float)) and score is not None\<close>, with the value as a number: a
  Python \<open>bool\<close> is an \<open>int\<close>, 1 or 0.
\<close>

fun numeric :: "pyvalue \<Rightarrow> real option" where
  "numeric (PFloat x) = Some x"
| "numeric (PInt i) = Some (real_of_int i)"
| "numeric (PBool b) = Some (if b then 1 else 0)"
| "numeric PNone = None"
| "numeric (PStr s) = None"

text \<open>
  The list \<open>all_scores\<close> of \<open>_determine_winner\<close>: the numeric values of \<open>metrics\<close>, then
  those of every dictionary of \<open>framework_scores\<close> (each framework result is a dictionary).
\<close>

definition all_scores :: "completed_comparison \<Rightarrow> real list" where
  "all_scores e =
     List.map_filter (\<lambda>(metric_name, score). numeric score) (cmp_metrics e)
     @ concat (map (\<lambda>(framework, scores).
                      List.map_filter (\<lambda>(metric_name, score). numeric score) scores)
                   (cmp_framework_scores e))"

text \<open>
  \<open>sum(all_scores) / len(all_scores) if all_scores else 0\<close>. A float is the real number
  that it denotes, and the comparisons and the negation of the sort key are exact on floats;
  the sum and the division round. So the value that Python computes for \<open>sum(xs) / len(xs)\<close>
  on a non-empty list is the parameter \<open>float_mean\<close>, and \<open>exact_mean\<close> is the mean without
  rounding.
\<close>

definition overall_score :: "(real list \<Rightarrow> real) \<Rightarrow> completed_comparison \<Rightarrow> real" where
  "overall_score float_mean e =
     (if all_scores e \<noteq> [] then float_mean (all_scores e) else 0)"

definition exact_mean :: "real list \<Rightarrow> real" where
  "exact_mean xs = sum_list xs / real (length xs)"

text \<open>One element of \<open>model_scores\<close>.\<close>

record model_score =
  ms_model :: string
  ms_score :: real
  ms_response_time :: real
  ms_cost :: real

definition score_entry :: "(real list \<Rightarrow> real) \<Rightarrow> completed_comparison \<Rightarrow> model_score" where
  "score_entry float_mean e =
     \<lparr>ms_model = cmp_model_name e,
      ms_score = overall_score float_mean e,
      ms_response_time = cmp_response_time e,
      ms_cost = (case cmp_cost e of None \<Rightarrow> 0 | Some c \<Rightarrow> c)\<rparr>"

text \<open>\<open>[c for c in comparisons if c.get("status") == "completed"]\<close>.\<close>

definition successful_comparisons :: "comparison list \<Rightarrow> completed_comparison list" where
  "successful_comparisons comparisons =
     List.map_filter (\<lambda>c. case c of CompletedEntry e \<Rightarrow> Some e | FailedEntry name err \<Rightarrow> None)
       comparisons"

text \<open>
  The key of \<open>model_scores.sort\<close>; tuples are compared lexicographically, and the sort is
  stable, as \<^const>\<open>sort_key\<close> is.
\<close>

definition ranking_key :: "model_score \<Rightarrow> real \<times> real \<times> real" where
  "ranking_key x = (- ms_score x, ms_response_time x, ms_cost x)"

text \<open>
  The winner: the model, and what the \<open>reason\<close> text is made of, the winning score and,
  when there is a second model, the score and the name of the second best (the text prints the
  winning score and the difference of the two scores with three decimals).
\<close>

record winner =
  winner_model :: string
  winner_score :: real
  winner_second :: "(real \<times> string) option"

text \<open>\<open>EvaluationService._determine_winner\<close>.\<close>

definition determine_winner :: "(real list \<Rightarrow> real) \<Rightarrow> comparison list \<Rightarrow> winner option" where
  "determine_winner float_mean comparisons =
     (let successful = successful_comparisons comparisons in
      if successful = [] then None
      else
        let model_scores = map (score_entry float_mean) successful in
        if model_scores = [] then None
        else
          (case sort_key ranking_key model_scores of
             [] \<Rightarrow> None
           | w # rest \<Rightarrow>
               Some \<lparr>winner_model = ms_model w,
                     winner_score = ms_score w,
                     winner_second =
                       (case rest of
                          [] \<Rightarrow> None
                        | second_best # others \<Rightarrow>
                            Some (ms_score second_best, ms_model second_best))\<rparr>))"

text \<open>
  The ranking in words: a higher score first, then a shorter response time, then a lower cost.
\<close>

definition ranks_before :: "model_score \<Rightarrow> model_score \<Rightarrow> bool" where
  "ranks_before a b =
     (ms_score a > ms_score b
      \<or> (ms_score a = ms_score b
          \<and> (ms_response_time a < ms_response_time b
              \<or> (ms_response_time a = ms_response_time b \<and> ms_cost a \<le> ms_cost b))))"

text \<open>
  Two completed models with the same composite score 0.9: \<open>A\<close> with 2 seconds and cost 0.01,
  \<open>B\<close> with 1 second and cost 0.02.
\<close>

definition scenario_d :: "comparison list" where
  "scenario_d =
     [CompletedEntry \<lparr>cmp_model_name = ''A'', cmp_response = ''x'',
        cmp_metrics = [(''coherence'', PFloat 0.9)], cmp_framework_scores = [],
        cmp_response_time = 2, cmp_tokens_used = 10, cmp_cost = Some 0.01\<rparr>,
      CompletedEntry \<lparr>cmp_model_name = ''B'', cmp_response = ''y'',
        cmp_metrics = [(''coherence'', PFloat 0.9)], cmp_framework_scores = [],
        cmp_response_time = 1, cmp_tokens_used = 10, cmp_cost = Some 0.02\<rparr>]"

text \<open>
  A completed model whose metrics hold a float, \<open>None\<close>, a boolean and a string, and whose
  framework scores hold a float and an integer for one framework and an error entry for
  another.
\<close>

definition mixed_entry :: completed_comparison where
  "mixed_entry =
     \<lparr>cmp_model_name = ''M'', cmp_response = ''z'',
      cmp_metrics = [(''coherence'', PFloat 0.9), (''bleu'', PNone), (''ok'', PBool True),
                     (''note'', PStr ''n/a'')],
      cmp_framework_scores = [(''basic'', [(''coherence'', PFloat 0.9), (''count'', PInt 2)]),
                              (''ragas'', [(''error'', PStr ''no api key'')])],
      cmp_response_time = 3, cmp_tokens_used = 5, cmp_cost = None\<rparr>"

section \<open>Tokens and the separators between them\<close>

text \<open>
  \<open>interleave seps toks\<close> writes the separators and the tokens in turn, starting with a
  separator; \<open>separators word s\<close> is the list of the pieces of \<open>s\<close> that lie before, between
  and after the matches of \<open>findall_runs word\<close>. Both serve to state what the tokenizer
  returns.
\<close>

fun interleave :: "'a list list \<Rightarrow> 'a list list \<Rightarrow> 'a list" where
  "interleave (s # ss) (t # ts) = s @ t @ interleave ss ts"
| "interleave ss [] = concat ss"
| "interleave [] ts = concat ts"

function separators :: "('c \<Rightarrow> bool) \<Rightarrow> 'c list \<Rightarrow> 'c list list" where
  "separators word [] = [[]]"
| "separators word (c # cs) =
     (if word c then [] # separators word (dropWhile word cs)
      else (c # hd (separators word cs)) # tl (separators word cs))"
  by pat_completeness auto
termination
  by (relation "measure (\<lambda>(word, cs). length cs)")
     (auto simp: le_imp_less_Suc length_dropWhile_le)

text \<open>The closed interval from 0 to 1, the range of every score.\<close>

definition in_unit :: "real \<Rightarrow> bool" where
  "in_unit x = (0 \<le> x \<and> x \<le> 1)"

section \<open>The scores lie between 0 and 1\<close>



lemma ratio_unit: "a \<le> b \<Longrightarrow> in_unit (real a / real b)"
  unfolding in_unit_def by (cases "b = 0") (simp_all add: divide_le_eq_1)

lemma card_inter_le1: "card (set xs \<inter> B) \<le> card (set xs)"
  by (simp add: card_mono)

lemma card_inter_le2: "card (A \<inter> set ys) \<le> card (set ys)"
  by (simp add: card_mono)

lemma fmean_unit:
  fixes P R :: real
  assumes "in_unit P" "in_unit R" "P + R \<noteq> 0"
  shows "in_unit ((10 * P * R) / (9 * P + R))"
proof -
  from assms have b: "0 \<le> P" "P \<le> 1" "0 \<le> R" "R \<le> 1" by (simp_all add: in_unit_def)
  have pos: "0 < 9 * P + R" using b assms(3) by linarith
  have "P * R \<le> P" using b by (simp add: mult_left_le)
  moreover have "P * R \<le> R" using b by (simp add: mult_left_le_one_le)
  ultimately have "10 * P * R \<le> 9 * P + R" by linarith
  moreover have "0 \<le> 10 * P * R" using b by simp
  ultimately show ?thesis using pos by (simp add: in_unit_def divide_le_eq_1)
qed

lemma mult_unit: "in_unit x \<Longrightarrow> in_unit y \<Longrightarrow> in_unit (x * y)"
  by (simp add: in_unit_def mult_le_one)

lemma jaccard_unit: "finite a \<Longrightarrow> finite b \<Longrightarrow> in_unit (jaccard a b)"
proof -
  assume fin: "finite a" "finite b"
  have "card (a \<inter> b) \<le> card (a \<union> b)" using fin by (intro card_mono) auto
  then have "in_unit (real (card (a \<inter> b)) / real (card (a \<union> b)))" by (rule ratio_unit)
  then show ?thesis by (simp add: jaccard_def in_unit_def)
qed

lemma meteor_unit: "in_unit (calculate_meteor_approx c r)"
proof -
  define C where "C = tokens_of c"
  define R where "R = tokens_of r"
  define m where "m = card (set C \<inter> set R)"
  define P where "P = real m / real (card (set C))"
  define Q where "Q = real m / real (card (set R))"
  define pen where "pen = 0.5 * (real m / real (length C))"
  have eq: "calculate_meteor_approx c r =
      (if C = [] \<or> R = [] then 0 else if P + Q = 0 then 0
       else (10 * P * Q) / (9 * P + Q) * (1 - pen))"
    by (simp add: calculate_meteor_approx_def Let_def C_def R_def m_def P_def Q_def pen_def)
  have P: "in_unit P" unfolding P_def m_def by (rule ratio_unit) (rule card_inter_le1)
  have Q: "in_unit Q" unfolding Q_def m_def by (rule ratio_unit) (rule card_inter_le2)
  have "m \<le> length C" unfolding m_def
    using card_inter_le1[of C "set R"] card_length[of C] by linarith
  then have "in_unit (real m / real (length C))" by (rule ratio_unit)
  then have pen: "in_unit (1 - pen)" by (simp add: in_unit_def pen_def)
  have "P + Q \<noteq> 0 \<Longrightarrow> in_unit ((10 * P * Q) / (9 * P + Q) * (1 - pen))"
    by (rule mult_unit[OF fmean_unit[OF P Q] pen])
  then show ?thesis unfolding eq by (auto simp: in_unit_def)
qed

lemma length_ratio_unit: "in_unit (calculate_length_ratio c r)"
proof -
  define cl where "cl = length (tokens_of c)"
  define rl where "rl = length (tokens_of r)"
  define ratio where "ratio = real cl / real rl"
  have eq: "calculate_length_ratio c r =
     (if r = [] then 0 else if rl = 0 then (if cl = 0 then 1 else 0)
      else 1 - \<bar>1 - ratio\<bar> / max 1 ratio)"
    by (simp add: calculate_length_ratio_def Let_def cl_def rl_def ratio_def)
  have "0 \<le> ratio" by (simp add: ratio_def)
  then have "in_unit (1 - \<bar>1 - ratio\<bar> / max 1 ratio)"
    by (cases "ratio \<le> 1") (simp_all add: in_unit_def max_def field_simps)
  then show ?thesis unfolding eq by (auto simp: in_unit_def)
qed

lemma word_overlap_unit: "in_unit (calculate_word_overlap c r)"
  using jaccard_unit[of "set (tokens_of c)" "set (tokens_of r)"]
  by (simp add: calculate_word_overlap_def Let_def in_unit_def)

lemma informativeness_unit: "in_unit (calculate_informativeness t)"
proof -
  define T where "T = tokens_of t"
  define v where "v = real (card (set T)) / real (length T)"
  define cr where "cr = (if T \<noteq> [] then real (length (filter (\<lambda>t. t \<notin> set stop_words) T)) / real (length T) else 0)"
  have eq: "calculate_informativeness t =
     (if t = [] then 0 else if T = [] then 0 else min 1 (0.6 * v + 0.4 * cr))"
    by (simp only: calculate_informativeness_def Let_def T_def v_def cr_def)
  have "in_unit v" unfolding v_def by (rule ratio_unit) (rule card_length)
  moreover have "in_unit (real (length (filter (\<lambda>t. t \<notin> set stop_words) T)) / real (length T))"
    by (rule ratio_unit) simp
  then have "in_unit cr" by (simp add: cr_def in_unit_def)
  ultimately have "in_unit (min 1 (0.6 * v + 0.4 * cr))" by (simp add: in_unit_def)
  then show ?thesis unfolding eq by (auto simp: in_unit_def)
qed

lemma relevance_unit: "in_unit (calculate_relevance q a ctx)"
proof -
  define Q where "Q = set (tokens_of q)"
  define A where "A = set (tokens_of a)"
  define X where "X = (if truthy ctx then set (tokenize ctx) else {})"
  define qr where "qr = (if Q \<noteq> {} then real (card (Q \<inter> A)) / real (card Q) else 0)"
  define xr where "xr = (if X \<noteq> {} then real (card (X \<inter> A)) / real (card X) else 0)"
  have eq: "calculate_relevance q a ctx =
     (if q = [] \<or> a = [] then 0 else if truthy ctx then 0.7 * qr + 0.3 * xr else qr)"
    by (simp add: calculate_relevance_def Let_def Q_def A_def X_def qr_def xr_def)
  have "in_unit (real (card (Q \<inter> A)) / real (card Q))"
    unfolding Q_def by (rule ratio_unit) (rule card_inter_le1)
  then have qr: "in_unit qr" by (simp add: qr_def in_unit_def)
  have "finite X" by (simp add: X_def)
  then have "card (X \<inter> A) \<le> card X" by (simp add: card_mono)
  then have "in_unit (real (card (X \<inter> A)) / real (card X))" by (rule ratio_unit)
  then have xr: "in_unit xr" by (simp add: xr_def in_unit_def)
  have "in_unit (0.7 * qr + 0.3 * xr)" using qr xr by (simp add: in_unit_def)
  then show ?thesis unfolding eq using qr by (auto simp: in_unit_def)
qed


lemma length_var_unit:
  assumes "L \<noteq> []"
  shows "0 < 1 - (real (Max (set L)) - real (Min (set L))) / (real (Max (set L)) + 1)
       \<and> 1 - (real (Max (set L)) - real (Min (set L))) / (real (Max (set L)) + 1) \<le> 1"
proof -
  have "Min (set L) \<le> Max (set L)" using assms by (simp add: Min_le_iff)
  then have le: "real (Min (set L)) \<le> real (Max (set L))" by simp
  have pos: "0 < real (Max (set L)) + 1" by linarith
  have "real (Max (set L)) - real (Min (set L)) < real (Max (set L)) + 1" by linarith
  then have "(real (Max (set L)) - real (Min (set L))) / (real (Max (set L)) + 1) < 1"
    using pos by (simp add: divide_less_eq_1)
  moreover have "0 \<le> (real (Max (set L)) - real (Min (set L))) / (real (Max (set L)) + 1)"
    using le pos by (simp add: divide_nonneg_pos)
  ultimately show ?thesis by linarith
qed

lemma coherence_multi:
  assumes ne: "t \<noteq> []" and two: "\<not> length (sentences t) < 2"
  shows "0 < calculate_coherence t \<and> calculate_coherence t \<le> 1"
proof -
  define ent where "ent = findall_entities t"
  define e where "e = real (card (set ent)) / real (length ent)"
  define cs where "cs = min 1 (real (length (filter (\<lambda>c. contains c (lower t)) connectors))
                               / real (length (sentences t)))"
  define L where "L = map (\<lambda>s. length (tokens_of s)) (sentences t)"
  define lv where "lv = 1 - (real (Max (set L)) - real (Min (set L))) / (real (Max (set L)) + 1)"
  have Lne: "L \<noteq> []" using two by (auto simp: L_def)
  have eq: "calculate_coherence t = (if ent \<noteq> [] then (e + cs + lv) / 3 else (cs + lv) / 2)"
    using ne two Lne
    by (simp add: calculate_coherence_def Let_def ent_def e_def cs_def L_def lv_def)
  have e: "in_unit e" unfolding e_def by (rule ratio_unit) (rule card_length)
  have cs: "in_unit cs" by (simp add: cs_def in_unit_def)
  have lv: "0 < lv \<and> lv \<le> 1" unfolding lv_def by (rule length_var_unit[OF Lne])
  show ?thesis unfolding eq using e cs lv by (auto simp: in_unit_def)
qed

lemma coherence_unit: "in_unit (calculate_coherence t)"
proof (cases "t = [] \<or> length (sentences t) < 2")
  case True
  then show ?thesis by (auto simp: calculate_coherence_def Let_def in_unit_def)
next
  case False
  then show ?thesis using coherence_multi[of t] by (simp add: in_unit_def)
qed

lemma fluency_unit: "in_unit (calculate_fluency t)"
proof -
  define S where "S = sentences t"
  define T where "T = tokens_of t"
  define a where "a = max 0 (1 - \<bar>real (sum_list (map (\<lambda>s. length (tokens_of s)) S))
                                     / real (length S) - 15\<bar> / 20)"
  define g where "g = max 0 (1 - \<bar>real (length (filter (\<lambda>t. t \<in> set grammar_markers) T))
                                     / real (length T) - 0.3\<bar> / 0.3)"
  define p where "p = min 1 (real (length (filter is_terminator t)) / real (length S))"
  have eq: "calculate_fluency t =
     (if t = [] then 0
      else if S \<noteq> [] then (if T \<noteq> [] then (a + g + p) / 3 else (a + p) / 2)
      else (if T \<noteq> [] then g else 0.5))"
    by (simp add: calculate_fluency_def Let_def S_def T_def a_def g_def p_def)
  have a: "in_unit a" by (simp add: a_def in_unit_def)
  have g: "in_unit g" by (simp add: g_def in_unit_def)
  have p: "in_unit p" by (simp add: p_def in_unit_def)
  show ?thesis unfolding eq using a g p by (auto simp: in_unit_def)
qed

lemma best_sim_fold_unit:
  "in_unit b \<Longrightarrow> finite c \<Longrightarrow>
   in_unit (foldl (\<lambda>best ref_sent.
              let ref_tokens = set (tokens_of ref_sent)
              in if c \<noteq> {} \<and> ref_tokens \<noteq> {}
                 then max best (jaccard c ref_tokens) else best) b rs)"
proof (induction rs arbitrary: b)
  case Nil
  then show ?case by simp
next
  case (Cons r rs)
  have "in_unit (max b (jaccard c (set (tokens_of r))))"
    using Cons.prems jaccard_unit[of c "set (tokens_of r)"] by (simp add: in_unit_def max_def)
  then show ?case using Cons by (simp add: Let_def)
qed

lemma best_sim_unit: "finite c \<Longrightarrow> in_unit (best_sim c rs)"
  unfolding best_sim_def by (rule best_sim_fold_unit) (simp_all add: in_unit_def)

lemma avg_unit:
  assumes "\<forall>x \<in> set xs. in_unit x" "xs \<noteq> []"
  shows "in_unit (sum_list xs / real (length xs))"
proof -
  have "0 \<le> sum_list xs" using assms(1) by (simp add: sum_list_nonneg in_unit_def)
  moreover have "sum_list xs \<le> real (length xs)"
    using assms(1) by (induction xs) (auto simp: in_unit_def)
  moreover have "0 < real (length xs)" using assms(2) by simp
  ultimately show ?thesis by (simp add: in_unit_def divide_le_eq_1)
qed

lemma sentence_similarity_unit: "in_unit (calculate_sentence_similarity c r)"
proof -
  define sims where "sims = map (\<lambda>cand_sent. best_sim (set (tokens_of cand_sent)) (sentences r))
                                (sentences c)"
  have eq: "calculate_sentence_similarity c r =
     (if sentences c = [] \<or> sentences r = [] then 0
      else if sims \<noteq> [] then sum_list sims / real (length sims) else 0)"
    by (simp only: calculate_sentence_similarity_def Let_def sims_def)
  have "\<forall>x \<in> set sims. in_unit x" by (auto simp: sims_def best_sim_unit)
  then have "sims \<noteq> [] \<Longrightarrow> in_unit (sum_list sims / real (length sims))" by (rule avg_unit)
  then show ?thesis unfolding eq by (auto simp: in_unit_def)
qed

lemma coherence_zero_iff: "calculate_coherence t = 0 \<longleftrightarrow> t = []"
proof (cases "t = []")
  case True
  then show ?thesis by (simp add: calculate_coherence_def)
next
  case ne: False
  show ?thesis
  proof (cases "length (sentences t) < 2")
    case True
    then show ?thesis using ne by (simp add: calculate_coherence_def Let_def)
  next
    case False
    then show ?thesis using ne coherence_multi[of t] by simp
  qed
qed


text \<open>
  Claim C4. For all input texts (candidate, reference, question, answer, context), each of the
  eight heuristic scorers (approximate alignment, coherence, relevance, fluency,
  informativeness, length ratio, word overlap, sentence similarity) returns a score in the
  closed interval from 0 to 1.
\<close>

theorem heuristic_scorers_in_unit_interval:
  "0 \<le> calculate_meteor_approx candidate reference
   \<and> calculate_meteor_approx candidate reference \<le> 1
   \<and> 0 \<le> calculate_coherence answer \<and> calculate_coherence answer \<le> 1
   \<and> 0 \<le> calculate_relevance question answer context
   \<and> calculate_relevance question answer context \<le> 1
   \<and> 0 \<le> calculate_fluency answer \<and> calculate_fluency answer \<le> 1
   \<and> 0 \<le> calculate_informativeness answer \<and> calculate_informativeness answer \<le> 1
   \<and> 0 \<le> calculate_length_ratio candidate reference
   \<and> calculate_length_ratio candidate reference \<le> 1
   \<and> 0 \<le> calculate_word_overlap candidate reference
   \<and> calculate_word_overlap candidate reference \<le> 1
   \<and> 0 \<le> calculate_sentence_similarity candidate reference
   \<and> calculate_sentence_similarity candidate reference \<le> 1"
  using meteor_unit[of candidate reference] coherence_unit[of answer]
    relevance_unit[of question answer "context"] fluency_unit[of answer]
    informativeness_unit[of answer] length_ratio_unit[of candidate reference]
    word_overlap_unit[of candidate reference] sentence_similarity_unit[of candidate reference]
  unfolding in_unit_def by blast

theorem heuristic_scorers_in_unit_interval_witness:
  "calculate_meteor_approx ''the cat sat'' ''the cat sat'' = 1 / 2
   \<and> calculate_coherence ''Hello World. This is Bob!  However, it works... '' = 25 / 36
   \<and> calculate_relevance ''what is a cat'' ''Hello World. This is Bob!  However, it works... ''
        (Some ''it is Bob'') = 19 / 40
   \<and> calculate_fluency ''Hello World. This is Bob!  However, it works... '' \<le> 1
   \<and> calculate_informativeness ''Hello World. This is Bob!  However, it works... '' \<le> 1
   \<and> 0 \<le> calculate_length_ratio ''the cat sat'' ''the cat sat''
   \<and> calculate_word_overlap ''the cat sat'' ''the cat sat'' \<le> 1
   \<and> 0 \<le> calculate_sentence_similarity ''the cat sat'' ''the cat sat''"
proof -
  have m: "calculate_meteor_approx ''the cat sat'' ''the cat sat'' = 1 / 2"
    by code_simp
  have c: "calculate_coherence ''Hello World. This is Bob!  However, it works... '' = 25 / 36"
    by code_simp
  have r: "calculate_relevance ''what is a cat''
      ''Hello World. This is Bob!  However, it works... '' (Some ''it is Bob'') = 19 / 40"
    by code_simp
  show ?thesis
    using m c r
      heuristic_scorers_in_unit_interval[of "''the cat sat''" "''the cat sat''"
        "''Hello World. This is Bob!  However, it works... ''" "''what is a cat''"
        "Some ''it is Bob''"]
    by blast
qed

section \<open>The length ratio\<close>

lemma tokens_nonempty_text: "tokens_of s \<noteq> [] \<Longrightarrow> s \<noteq> []"
  by (auto simp: tokenize_def tokenize_with_def)

text \<open>
  Claim C7, as stated, at the empty candidate and the empty reference: the token counts are
  equal and the score is 0, not 1.
\<close>

theorem length_ratio_both_empty_counterexample:
  "length (tokens_of []) = length (tokens_of []) \<and> calculate_length_ratio [] [] \<noteq> 1"
  by (simp add: calculate_length_ratio_def)

text \<open>
  Claim C7, amended. When the reference has a token, the length ratio is
  \<open>1 - |1 - c / r| / max(1, c / r)\<close> over the token counts \<open>c\<close> and \<open>r\<close>. For a reference
  that is not the empty string, equal token counts give exactly 1 (also when neither text has
  a token). The empty reference string gives 0 whatever the candidate is, and a reference
  without tokens gives 0 when the candidate has a token.
\<close>

theorem length_ratio_cases:
  "(tokens_of reference \<noteq> [] \<longrightarrow>
      calculate_length_ratio candidate reference =
        1 - \<bar>1 - real (length (tokens_of candidate)) / real (length (tokens_of reference))\<bar>
            / max 1 (real (length (tokens_of candidate)) / real (length (tokens_of reference))))
   \<and> (reference \<noteq> [] \<and> length (tokens_of candidate) = length (tokens_of reference) \<longrightarrow>
      calculate_length_ratio candidate reference = 1)
   \<and> (reference = [] \<longrightarrow> calculate_length_ratio candidate reference = 0)
   \<and> (tokens_of reference = [] \<and> tokens_of candidate \<noteq> [] \<longrightarrow>
      calculate_length_ratio candidate reference = 0)"
proof (intro conjI impI)
  assume "tokens_of reference \<noteq> []"
  then show "calculate_length_ratio candidate reference =
        1 - \<bar>1 - real (length (tokens_of candidate)) / real (length (tokens_of reference))\<bar>
            / max 1 (real (length (tokens_of candidate)) / real (length (tokens_of reference)))"
    using tokens_nonempty_text[of reference] by (simp add: calculate_length_ratio_def Let_def)
next
  assume "reference \<noteq> [] \<and> length (tokens_of candidate) = length (tokens_of reference)"
  then show "calculate_length_ratio candidate reference = 1"
    by (simp add: calculate_length_ratio_def Let_def)
next
  assume "reference = []"
  then show "calculate_length_ratio candidate reference = 0"
    by (simp add: calculate_length_ratio_def)
next
  assume "tokens_of reference = [] \<and> tokens_of candidate \<noteq> []"
  then show "calculate_length_ratio candidate reference = 0"
    by (simp add: calculate_length_ratio_def Let_def)
qed

theorem length_ratio_cases_witness:
  "(tokens_of ''a b'' \<noteq> [] \<and> calculate_length_ratio ''a b c'' ''a b'' = 2 / 3)
   \<and> (''?!'' \<noteq> [] \<and> length (tokens_of ''...'') = length (tokens_of ''?!'')
        \<and> calculate_length_ratio ''...'' ''?!'' = 1)
   \<and> calculate_length_ratio ''a'' [] = 0
   \<and> (tokens_of ''!'' = [] \<and> tokens_of ''a'' \<noteq> [] \<and> calculate_length_ratio ''a'' ''!'' = 0)"
proof -
  have t1: "tokens_of ''a b'' = [''a'', ''b'']" by code_simp
  have t2: "tokens_of ''a b c'' = [''a'', ''b'', ''c'']" by code_simp
  have t3: "tokens_of ''...'' = []" by code_simp
  have t4: "tokens_of ''?!'' = []" by code_simp
  have t5: "tokens_of ''!'' = []" by code_simp
  have t6: "tokens_of ''a'' = [''a'']" by code_simp
  show ?thesis
    using length_ratio_cases[of "''a b''" "''a b c''"] length_ratio_cases[of "''?!''" "''...''"]
      length_ratio_cases[of "[]" "''a''"] length_ratio_cases[of "''!''" "''a''"]
    by (simp add: t1 t2 t3 t4 t5 t6)
qed

section \<open>The coherence of short texts\<close>

lemma coherence_single:
  "t \<noteq> [] \<Longrightarrow> length (sentences t) < 2 \<Longrightarrow> calculate_coherence t = 0.8"
  by (simp add: calculate_coherence_def Let_def)

text \<open>
  Claim C10. For every non-empty string whose split on sentence terminators yields fewer than
  two non-blank sentences, the coherence scorer returns exactly 0.8, whether or not the string
  has a word token; and the score is 0 for the empty string only, so a non-empty string without
  tokens never scores 0.
\<close>

theorem coherence_short_text:
  "(text \<noteq> [] \<and> length (sentences text) < 2 \<longrightarrow> calculate_coherence text = 0.8)
   \<and> (calculate_coherence text = 0 \<longleftrightarrow> text = [])
   \<and> (text \<noteq> [] \<and> tokens_of text = [] \<longrightarrow> calculate_coherence text \<noteq> 0)"
  using coherence_single[of "text"] coherence_zero_iff[of "text"] by blast

theorem coherence_short_text_witness:
  "''?! '' \<noteq> [] \<and> length (sentences ''?! '') < 2 \<and> tokens_of ''?! '' = []
   \<and> calculate_coherence ''?! '' = 0.8 \<and> calculate_coherence ''?! '' \<noteq> 0
   \<and> calculate_coherence [] = 0"
proof -
  have s: "length (sentences ''?! '') < 2" by code_simp
  have t: "tokens_of ''?! '' = []" by code_simp
  show ?thesis
    using coherence_short_text[of "''?! ''"] coherence_short_text[of "[]"] s t by simp
qed

section \<open>ROUGE of a text against itself\<close>


lemma lcs_row_self:
  assumes xi: "xi = x ! i" and n: "n = length x"
  shows "j \<le> n \<Longrightarrow>
     lcs_row xi (drop j x) (map (min i) [j ..< Suc n]) (min (Suc i) j)
       = map (min (Suc i)) [Suc j ..< Suc n]"
proof (induction "n - j" arbitrary: j)
  case 0
  then have "j = n" by simp
  then show ?case using n by simp
next
  case (Suc d)
  then have jn: "j < n" by simp
  have dr: "drop j x = x ! j # drop (Suc j) x"
    using jn n by (simp add: Cons_nth_drop_Suc)
  have up: "[j ..< Suc n] = j # Suc j # [Suc (Suc j) ..< Suc n]"
    using jn by (simp add: upt_conv_Cons)
  have up2: "[Suc j ..< Suc n] = Suc j # [Suc (Suc j) ..< Suc n]"
    using jn by (simp add: upt_conv_Cons)
  have v: "(if xi = x ! j then min i j + 1 else max (min i (Suc j)) (min (Suc i) j))
             = min (Suc i) (Suc j)"
    using xi by (cases "i = j") auto
  have IH: "lcs_row xi (drop (Suc j) x) (map (min i) [Suc j ..< Suc n]) (min (Suc i) (Suc j))
       = map (min (Suc i)) [Suc (Suc j) ..< Suc n]"
    using Suc.hyps(1)[of "Suc j"] Suc.hyps(2) jn by simp
  show ?case
    unfolding dr up using v IH by (simp add: up2 Let_def del: upt_Suc min_Suc_Suc)
qed

lemma map_min_zero: "map (min 0) ks = replicate (length ks) (0::nat)"
  by (induction ks) auto

lemma lcs_table_self:
  "i \<le> length x \<Longrightarrow>
   foldl (\<lambda>prev xi. 0 # lcs_row xi x prev 0) (replicate (length x + 1) 0) (take i x)
     = map (min i) [0 ..< Suc (length x)]"
proof (induction i)
  case 0
  have "map (min 0) [0 ..< Suc (length x)] = replicate (length [0 ..< Suc (length x)]) (0::nat)"
    by (rule map_min_zero)
  also have "length [0 ..< Suc (length x)] = length x + 1" by simp
  finally have r: "replicate (length x + 1) 0 = map (min 0) [0 ..< Suc (length x)]" by (rule sym)
  show ?case by (simp only: take_0 foldl_Nil r)
next
  case (Suc i)
  then have il: "i < length x" by simp
  have tk: "take (Suc i) x = take i x @ [x ! i]" using il by (simp add: take_Suc_conv_app_nth)
  have row: "lcs_row (x ! i) x (map (min i) [0 ..< Suc (length x)]) 0
               = map (min (Suc i)) [Suc 0 ..< Suc (length x)]"
    using lcs_row_self[of "x ! i" x i "length x" 0] by simp
  have "[0 ..< Suc (length x)] = 0 # [Suc 0 ..< Suc (length x)]" by (rule upt_conv_Cons) simp
  then have "map (min (Suc i)) [0 ..< Suc (length x)]
            = 0 # map (min (Suc i)) [Suc 0 ..< Suc (length x)]" by simp
  then show ?case using Suc.IH il row by (simp add: tk del: upt_Suc)
qed

lemma lcs_length_self: "lcs_length x x = length x"
proof -
  have "foldl (\<lambda>prev xi. 0 # lcs_row xi x prev 0) (replicate (length x + 1) 0) x
     = map (min (length x)) [0 ..< Suc (length x)]"
    using lcs_table_self[of "length x" x] by simp
  then show ?thesis by (simp add: lcs_length_def)
qed

lemma lcs_f1_self: "x \<noteq> [] \<Longrightarrow> calculate_lcs_f1 x x = 1"
  by (simp add: calculate_lcs_f1_def lcs_length_self)

lemma set_f1_self: "finite A \<Longrightarrow> A \<noteq> {} \<Longrightarrow> set_f1 A A = 1"
  by (simp add: set_f1_def)

lemma get_ngrams_nonempty: "0 < n \<Longrightarrow> n \<le> length xs \<Longrightarrow> get_ngrams xs n \<noteq> []"
  by (simp add: get_ngrams_def)

lemma get_ngrams_short: "length xs < n \<Longrightarrow> get_ngrams xs n = []"
  by (simp add: get_ngrams_def)

text \<open>
  Claim C5, as stated, at two non-empty texts: a text without a token scores 0 for ROUGE-1,
  and a text of one token has no bigram and scores 0 for ROUGE-2.
\<close>

theorem rouge_self_counterexample:
  "''!'' \<noteq> [] \<and> rouge1 (calculate_rouge ''!'' ''!'') \<noteq> 1
   \<and> ''hello'' \<noteq> [] \<and> rouge2 (calculate_rouge ''hello'' ''hello'') \<noteq> 1"
  by code_simp

text \<open>
  Claim C5, amended. With a text as both candidate and reference, ROUGE-1 and ROUGE-L are 1
  when the text has at least one token, and ROUGE-2 is 1 when it has at least two tokens.
  A text of exactly one token has ROUGE-2 equal to 0, and a text without tokens has all three
  scores equal to 0.
\<close>

theorem rouge_self:
  "(tokens_of t \<noteq> [] \<longrightarrow>
      rouge1 (calculate_rouge t t) = 1 \<and> rougeL (calculate_rouge t t) = 1)
   \<and> (2 \<le> length (tokens_of t) \<longrightarrow> rouge2 (calculate_rouge t t) = 1)
   \<and> (length (tokens_of t) = 1 \<longrightarrow> rouge2 (calculate_rouge t t) = 0)
   \<and> (tokens_of t = [] \<longrightarrow> rouge1 (calculate_rouge t t) = 0
        \<and> rouge2 (calculate_rouge t t) = 0 \<and> rougeL (calculate_rouge t t) = 0)"
proof (intro conjI impI)
  assume ne: "tokens_of t \<noteq> []"
  then show "rouge1 (calculate_rouge t t) = 1"
    by (simp add: calculate_rouge_def Let_def set_f1_self)
  from ne show "rougeL (calculate_rouge t t) = 1"
    by (simp add: calculate_rouge_def Let_def lcs_f1_self)
next
  assume two: "2 \<le> length (tokens_of t)"
  then have ne: "tokens_of t \<noteq> []" by auto
  have "get_ngrams (tokens_of t) 2 \<noteq> []" using two by (simp add: get_ngrams_nonempty)
  then have "set_f1 (set (get_ngrams (tokens_of t) 2)) (set (get_ngrams (tokens_of t) 2)) = 1"
    by (simp add: set_f1_self)
  then show "rouge2 (calculate_rouge t t) = 1" using ne by (simp add: calculate_rouge_def Let_def)
next
  assume one: "length (tokens_of t) = 1"
  then have "get_ngrams (tokens_of t) 2 = []" by (simp add: get_ngrams_short)
  then show "rouge2 (calculate_rouge t t) = 0"
    by (simp add: calculate_rouge_def Let_def set_f1_def)
qed (simp_all add: calculate_rouge_def)


theorem rouge_self_witness:
  "2 \<le> length (tokens_of ''the cat sat'')
   \<and> rouge1 (calculate_rouge ''the cat sat'' ''the cat sat'') = 1
   \<and> rouge2 (calculate_rouge ''the cat sat'' ''the cat sat'') = 1
   \<and> rougeL (calculate_rouge ''the cat sat'' ''the cat sat'') = 1
   \<and> length (tokens_of ''hello'') = 1
   \<and> rouge1 (calculate_rouge ''hello'' ''hello'') = 1
   \<and> rouge2 (calculate_rouge ''hello'' ''hello'') = 0
   \<and> tokens_of ''!'' = []
   \<and> rouge1 (calculate_rouge ''!'' ''!'') = 0
   \<and> rouge2 (calculate_rouge ''!'' ''!'') = 0
   \<and> rougeL (calculate_rouge ''!'' ''!'') = 0"
proof -
  have a: "tokens_of ''the cat sat'' = [''the'', ''cat'', ''sat'']" by code_simp
  have b: "tokens_of ''hello'' = [''hello'']" by code_simp
  have c: "tokens_of ''!'' = []" by code_simp
  show ?thesis
    using rouge_self[of "''the cat sat''"] rouge_self[of "''hello''"] rouge_self[of "''!''"]
    by (simp add: a b c)
qed

section \<open>BLEU\<close>


lemma ngram_precision_nonneg: "0 \<le> ngram_precision c r n"
  by (simp add: ngram_precision_def Let_def)

lemma upt_1_5: "[1 ..< 5] = [1, 2, 3, (4::nat)]"
  by code_simp

lemma geometric_mean_powr:
  fixes p1 p2 p3 p4 :: real
  assumes "0 \<le> p1" "0 \<le> p2" "0 \<le> p3" "0 \<le> p4"
  shows "(if list_all (\<lambda>p. p > 0) [p1, p2, p3, p4]
          then exp (sum_list (map (\<lambda>(w, p). w * ln p) (zip [0.25, 0.25, 0.25, 0.25] [p1, p2, p3, p4])))
          else 0) = (p1 * p2 * p3 * p4) powr (1 / 4)"
proof (cases "0 < p1 \<and> 0 < p2 \<and> 0 < p3 \<and> 0 < p4")
  case True
  then have "ln (p1 * p2 * p3 * p4) = ln p1 + ln p2 + ln p3 + ln p4"
    by (simp add: ln_mult)
  moreover have "p1 * p2 * p3 * p4 \<noteq> 0" using True by simp
  ultimately show ?thesis using True by (simp add: powr_def algebra_simps)
next
  case False
  then have "p1 * p2 * p3 * p4 = 0" using assms by auto
  then show ?thesis using False by auto
qed

lemma calculate_bleu_powr:
  "calculate_bleu candidate reference =
     (if tokens_of candidate = [] \<or> tokens_of reference = [] then 0
      else min 1 (exp (1 - real (length (tokens_of reference))
                          / real (length (tokens_of candidate))))
           * (ngram_precision (tokens_of candidate) (tokens_of reference) 1
              * ngram_precision (tokens_of candidate) (tokens_of reference) 2
              * ngram_precision (tokens_of candidate) (tokens_of reference) 3
              * ngram_precision (tokens_of candidate) (tokens_of reference) 4) powr (1 / 4))"
proof -
  define C where "C = tokens_of candidate"
  define R where "R = tokens_of reference"
  define bp where "bp = min 1 (exp (1 - real (length R) / real (length C)))"
  have gm: "(if list_all (\<lambda>p. p > 0) [ngram_precision C R 1, ngram_precision C R 2,
                 ngram_precision C R 3, ngram_precision C R 4]
          then exp (sum_list (map (\<lambda>(w, p). w * ln p) (zip [0.25, 0.25, 0.25, 0.25]
                [ngram_precision C R 1, ngram_precision C R 2,
                 ngram_precision C R 3, ngram_precision C R 4])))
          else 0) = (ngram_precision C R 1 * ngram_precision C R 2
                     * ngram_precision C R 3 * ngram_precision C R 4) powr (1 / 4)"
    by (rule geometric_mean_powr) (rule ngram_precision_nonneg)+
  have eq: "calculate_bleu candidate reference =
     (if C = [] \<or> R = [] then 0
      else bp * (if list_all (\<lambda>p. p > 0) [ngram_precision C R 1, ngram_precision C R 2,
                 ngram_precision C R 3, ngram_precision C R 4]
          then exp (sum_list (map (\<lambda>(w, p). w * ln p) (zip [0.25, 0.25, 0.25, 0.25]
                [ngram_precision C R 1, ngram_precision C R 2,
                 ngram_precision C R 3, ngram_precision C R 4])))
          else 0))"
    by (simp only: calculate_bleu_def Let_def upt_1_5 list.map C_def R_def bp_def)
  show ?thesis unfolding eq gm unfolding C_def R_def bp_def ..
qed

lemma bleu_scenario_tokens:
  "tokens_of ''a'' = [''a'']" "tokens_of ''a b c d e'' = [''a'', ''b'', ''c'', ''d'', ''e'']"
  by code_simp+

lemma bleu_scenario_precision:
  "ngram_precision [''a''] [''a'', ''b'', ''c'', ''d'', ''e''] 2 = 0"
  by (simp add: ngram_precision_def get_ngrams_def)

lemma ngram_precision_clipped:
  "ngram_precision cs rs n =
     (if get_ngrams cs n = [] then 0
      else real (\<Sum>g \<in> set (get_ngrams cs n).
                   min (count_list (get_ngrams cs n) g) (count_list (get_ngrams rs n) g))
           / real (length (get_ngrams cs n)))"
proof -
  have "sum_list (map (\<lambda>g. min (count_list (get_ngrams cs n) g) (count_list (get_ngrams rs n) g))
                      (remdups (get_ngrams cs n)))
        = (\<Sum>g \<in> set (get_ngrams cs n).
             min (count_list (get_ngrams cs n) g) (count_list (get_ngrams rs n) g))"
    using sum_list_distinct_conv_sum_set[of "remdups (get_ngrams cs n)"] by simp
  then show ?thesis by (simp add: ngram_precision_def Let_def)
qed

lemma get_ngrams_windows:
  "length (get_ngrams xs n) = (if length xs < n then 0 else length xs - n + 1)"
  "i + n \<le> length xs \<Longrightarrow> get_ngrams xs n ! i = take n (drop i xs)"
proof -
  show "length (get_ngrams xs n) = (if length xs < n then 0 else length xs - n + 1)"
    by (simp add: get_ngrams_def)
  assume "i + n \<le> length xs"
  then have "\<not> length xs < n" "i < length xs - n + 1" by linarith+
  then show "get_ngrams xs n ! i = take n (drop i xs)"
    by (simp add: get_ngrams_def del: upt_Suc)
qed

text \<open>
  Claim C8. BLEU is 0 when the candidate or the reference has no token. Otherwise it is the
  brevity penalty \<open>min(1, exp(1 - |reference| / |candidate|))\<close> times the geometric mean of
  the clipped precisions of orders 1 to 4, each with weight one quarter; the geometric mean is
  0 as soon as one precision is 0, as no smoothing is applied. The clipped precision of order
  \<open>n\<close> is the sum, over the distinct candidate n-grams, of the smaller of the n-gram's counts
  in the candidate and in the reference, divided by the number of candidate n-grams (0 when
  there is none); the n-grams of a token list are its windows of length \<open>n\<close>, in order. The
  candidate \<open>a\<close> against the reference \<open>a b c d e\<close> scores 0.
\<close>

theorem bleu_formula:
  "(tokens_of candidate = [] \<or> tokens_of reference = [] \<longrightarrow>
      calculate_bleu candidate reference = 0)
   \<and> (tokens_of candidate \<noteq> [] \<and> tokens_of reference \<noteq> [] \<longrightarrow>
      calculate_bleu candidate reference =
        min 1 (exp (1 - real (length (tokens_of reference)) / real (length (tokens_of candidate))))
        * (ngram_precision (tokens_of candidate) (tokens_of reference) 1
           * ngram_precision (tokens_of candidate) (tokens_of reference) 2
           * ngram_precision (tokens_of candidate) (tokens_of reference) 3
           * ngram_precision (tokens_of candidate) (tokens_of reference) 4) powr (1 / 4))
   \<and> ((\<exists>n \<in> {1, 2, 3, 4}. ngram_precision (tokens_of candidate) (tokens_of reference) n = 0) \<longrightarrow>
      calculate_bleu candidate reference = 0)
   \<and> calculate_bleu ''a'' ''a b c d e'' = 0
   \<and> ngram_precision cs rs n =
        (if get_ngrams cs n = [] then 0
         else real (\<Sum>g \<in> set (get_ngrams cs n).
                      min (count_list (get_ngrams cs n) g) (count_list (get_ngrams rs n) g))
              / real (length (get_ngrams cs n)))
   \<and> length (get_ngrams xs n) = (if length xs < n then 0 else length xs - n + 1)
   \<and> (\<forall>i. i + n \<le> length xs \<longrightarrow> get_ngrams xs n ! i = take n (drop i xs))"
proof -
  have scen: "calculate_bleu ''a'' ''a b c d e'' = 0"
    unfolding calculate_bleu_powr[of "''a''" "''a b c d e''"] bleu_scenario_tokens
    by (simp add: bleu_scenario_precision)
  have main: "(tokens_of candidate = [] \<or> tokens_of reference = [] \<longrightarrow>
      calculate_bleu candidate reference = 0)
   \<and> (tokens_of candidate \<noteq> [] \<and> tokens_of reference \<noteq> [] \<longrightarrow>
      calculate_bleu candidate reference =
        min 1 (exp (1 - real (length (tokens_of reference)) / real (length (tokens_of candidate))))
        * (ngram_precision (tokens_of candidate) (tokens_of reference) 1
           * ngram_precision (tokens_of candidate) (tokens_of reference) 2
           * ngram_precision (tokens_of candidate) (tokens_of reference) 3
           * ngram_precision (tokens_of candidate) (tokens_of reference) 4) powr (1 / 4))
   \<and> ((\<exists>n \<in> {1, 2, 3, 4}. ngram_precision (tokens_of candidate) (tokens_of reference) n = 0) \<longrightarrow>
      calculate_bleu candidate reference = 0)"
    unfolding calculate_bleu_powr[of candidate reference] by auto
  have win: "\<forall>i. i + n \<le> length xs \<longrightarrow> get_ngrams xs n ! i = take n (drop i xs)"
    using get_ngrams_windows(2)[of _ n xs] by blast
  show ?thesis
    using main scen ngram_precision_clipped[of cs rs n] get_ngrams_windows(1)[of xs n] win
    by (intro conjI) blast+
qed

theorem bleu_formula_witness:
  "tokens_of ''a b c d'' \<noteq> [] \<and> calculate_bleu ''a b c d'' ''a b c d'' = 1
   \<and> tokens_of ''a a b c d'' \<noteq> []
   \<and> ngram_precision (tokens_of ''a a b c d'') (tokens_of ''a b c d e f'') 1 = 4 / 5
   \<and> calculate_bleu ''a a b c d'' ''a b c d e f'' = exp (- (1 / 5)) * (1 / 5) powr (1 / 4)
   \<and> ngram_precision (tokens_of ''the the the'') (tokens_of ''the cat'') 1 = 1 / 3
   \<and> get_ngrams [''the'', ''the'', ''the''] 2 = [[''the'', ''the''], [''the'', ''the'']]
   \<and> tokens_of ''!'' = [] \<and> calculate_bleu ''!'' ''a'' = 0
   \<and> ngram_precision (tokens_of ''a'') (tokens_of ''a b c d e'') 2 = 0
   \<and> calculate_bleu ''a'' ''a b c d e'' = 0"
proof -
  have t: "tokens_of ''a b c d'' = [''a'', ''b'', ''c'', ''d'']" by code_simp
  have p: "ngram_precision [''a'', ''b'', ''c'', ''d''] [''a'', ''b'', ''c'', ''d''] (Suc 0) = 1"
     "ngram_precision [''a'', ''b'', ''c'', ''d''] [''a'', ''b'', ''c'', ''d''] 2 = 1"
     "ngram_precision [''a'', ''b'', ''c'', ''d''] [''a'', ''b'', ''c'', ''d''] 3 = 1"
     "ngram_precision [''a'', ''b'', ''c'', ''d''] [''a'', ''b'', ''c'', ''d''] 4 = 1"
    by code_simp+
  have u: "tokens_of ''a a b c d'' = [''a'', ''a'', ''b'', ''c'', ''d'']"
    "tokens_of ''a b c d e f'' = [''a'', ''b'', ''c'', ''d'', ''e'', ''f'']"
    by code_simp+
  have q: "ngram_precision [''a'', ''a'', ''b'', ''c'', ''d'']
             [''a'', ''b'', ''c'', ''d'', ''e'', ''f''] (Suc 0) = 4 / 5"
     "ngram_precision [''a'', ''a'', ''b'', ''c'', ''d'']
             [''a'', ''b'', ''c'', ''d'', ''e'', ''f''] 2 = 3 / 4"
     "ngram_precision [''a'', ''a'', ''b'', ''c'', ''d'']
             [''a'', ''b'', ''c'', ''d'', ''e'', ''f''] 3 = 2 / 3"
     "ngram_precision [''a'', ''a'', ''b'', ''c'', ''d'']
             [''a'', ''b'', ''c'', ''d'', ''e'', ''f''] 4 = 1 / 2"
    by code_simp+
  have v: "tokens_of ''the the the'' = [''the'', ''the'', ''the'']"
    "tokens_of ''the cat'' = [''the'', ''cat'']"
    by code_simp+
  have r1: "ngram_precision [''the'', ''the'', ''the''] [''the'', ''cat''] (Suc 0) = 1 / 3"
    by code_simp
  have g: "get_ngrams [''the'', ''the'', ''the''] 2 = [[''the'', ''the''], [''the'', ''the'']]"
    by code_simp
  have e: "tokens_of ''!'' = []" by code_simp
  have a: "tokens_of ''a'' = [''a'']" by code_simp
  have b: "tokens_of ''a b c d e'' = [''a'', ''b'', ''c'', ''d'', ''e'']" by code_simp
  have p2: "ngram_precision [''a''] [''a'', ''b'', ''c'', ''d'', ''e''] 2 = 0" by code_simp
  have one: "calculate_bleu ''a b c d'' ''a b c d'' = 1"
    using bleu_formula[of "''a b c d''" "''a b c d''" "[]" "[]" 0 "[] :: string list"] by (simp add: t p)
  have bp: "min 1 (exp (1 - 6 / (5::real))) = exp (- (1 / 5))" by simp
  have two: "calculate_bleu ''a a b c d'' ''a b c d e f'' = exp (- (1 / 5)) * (1 / 5) powr (1 / 4)"
    using bleu_formula[of "''a a b c d''" "''a b c d e f''" "[]" "[]" 0 "[] :: string list"] bp by (simp add: u q)
  have three: "calculate_bleu ''!'' ''a'' = 0"
    using bleu_formula[of "''!''" "''a''" "[]" "[]" 0 "[] :: string list"] by (simp add: e)
  have four: "calculate_bleu ''a'' ''a b c d e'' = 0"
    using bleu_formula[of "''a''" "''a b c d e''" "[]" "[]" 0 "[] :: string list"] by (simp add: a b p2)
  show ?thesis using one two three four by (simp add: t u q v r1 g e a b p2)
qed

section \<open>The tokenizer\<close>

lemma separators_nonempty: "separators word cs \<noteq> []"
  by (cases cs) auto

lemma separators_length:
  "length (separators word cs) = Suc (length (findall_runs word cs))"
  by (induction word cs rule: findall_runs.induct) (auto simp: separators_nonempty)

lemma separators_member_nonword:
  "sep \<in> set (separators word cs) \<Longrightarrow> x \<in> set sep \<Longrightarrow> \<not> word x"
proof (induction word cs arbitrary: sep x rule: findall_runs.induct)
  case (1 word)
  then show ?case by simp
next
  case (2 word c cs)
  show ?case
  proof (cases "word c")
    case True
    then have "separators word (c # cs) = [] # separators word (dropWhile word cs)" by simp
    then have "sep = [] \<or> sep \<in> set (separators word (dropWhile word cs))"
      using 2(3) by simp
    then have "sep \<in> set (separators word (dropWhile word cs))" using 2(4) by auto
    then show ?thesis using 2(4) by (rule 2(1)[OF True])
  next
    case False
    obtain g gs where sp: "separators word cs = g # gs"
      using separators_nonempty[of word cs] by (cases "separators word cs") auto
    have eq: "separators word (c # cs) = (c # g) # gs" using False sp by simp
    from 2(3) have "sep = c # g \<or> sep \<in> set gs" unfolding eq by simp
    then show ?thesis
    proof
      assume s: "sep = c # g"
      then have "x = c \<or> x \<in> set g" using 2(4) by simp
      then show ?thesis
      proof
        assume "x = c"
        then show ?thesis using False by simp
      next
        assume xg: "x \<in> set g"
        have "g \<in> set (separators word cs)" unfolding sp by simp
        then show ?thesis using xg by (rule 2(2)[OF False])
      qed
    next
      assume "sep \<in> set gs"
      then have "sep \<in> set (separators word cs)" unfolding sp by simp
      then show ?thesis using 2(4) by (rule 2(2)[OF False])
    qed
  qed
qed

lemma separators_nonword: "\<forall>sep \<in> set (separators word cs). \<forall>c \<in> set sep. \<not> word c"
proof (intro ballI)
  fix sep c
  assume "sep \<in> set (separators word cs)" "c \<in> set sep"
  then show "\<not> word c" by (rule separators_member_nonword)
qed

lemma separators_interleave:
  "interleave (separators word cs) (findall_runs word cs) = cs"
proof (induction word cs rule: findall_runs.induct)
  case (1 word)
  then show ?case by simp
next
  case (2 word c cs)
  show ?case
  proof (cases "word c")
    case True
    then show ?thesis using 2 by simp
  next
    case False
    obtain g gs where sp: "separators word cs = g # gs"
      using separators_nonempty[of word cs] by (cases "separators word cs") auto
    have "interleave ((c # g) # gs) (findall_runs word cs)
            = c # interleave (g # gs) (findall_runs word cs)"
      by (cases "findall_runs word cs") auto
    then show ?thesis using False 2 sp by simp
  qed
qed

lemma separators_first:
  "cs \<noteq> [] \<Longrightarrow> \<not> word (hd cs) \<Longrightarrow> separators word cs ! 0 \<noteq> []"
  by (cases cs) auto

lemma separators_inner:
  "0 < i \<Longrightarrow> i < length (findall_runs word cs) \<Longrightarrow> separators word cs ! i \<noteq> []"
proof (induction word cs arbitrary: i rule: findall_runs.induct)
  case (1 word)
  then show ?case by simp
next
  case (2 word c cs)
  show ?case
  proof (cases "word c")
    case True
    let ?rest = "dropWhile word cs"
    from 2(3,4) True obtain j where j: "i = Suc j" "j < length (findall_runs word ?rest)"
      by (cases i) auto
    have ne: "?rest \<noteq> []"
    proof
      assume "?rest = []"
      then have "findall_runs word ?rest = []" by (simp only: findall_runs.simps(1))
      then show False using j(2) by simp
    qed
    then have nw: "\<not> word (hd ?rest)" by (rule hd_dropWhile)
    have "separators word ?rest ! j \<noteq> []"
    proof (cases j)
      case 0
      then show ?thesis using separators_first[of "dropWhile word cs" word] ne nw by simp
    next
      case (Suc k)
      then show ?thesis using 2(1)[OF True, of j] j by simp
    qed
    then show ?thesis using True j by simp
  next
    case False
    from 2(3) obtain j where j: "i = Suc j" by (cases i) auto
    have "separators word cs ! i \<noteq> []" using 2(2)[OF False, of i] 2(3,4) False by simp
    moreover have "tl (separators word cs) ! j = separators word cs ! Suc j"
      using separators_nonempty[of word cs] by (cases "separators word cs") auto
    ultimately show ?thesis using False j by simp
  qed
qed

lemma findall_runs_chars:
  "\<forall>tok \<in> set (findall_runs word cs). tok \<noteq> [] \<and> (\<forall>c \<in> set tok. word c \<and> c \<in> set cs)"
proof (induction word cs rule: findall_runs.induct)
  case (1 word)
  then show ?case by simp
next
  case (2 word c cs)
  show ?case
  proof (cases "word c")
    case True
    have a: "\<forall>x \<in> set (takeWhile word cs). word x \<and> x \<in> set cs"
      by (auto dest: set_takeWhileD)
    have b: "set (dropWhile word cs) \<subseteq> set cs" by (rule set_dropWhileD[THEN subsetI])
    have fw: "findall_runs word (c # cs)
                = (c # takeWhile word cs) # findall_runs word (dropWhile word cs)"
      using True by simp
    have hd_ok: "\<forall>x \<in> set (c # takeWhile word cs). word x \<and> x \<in> set (c # cs)"
      using True a by simp
    have tl_ok: "\<forall>tok \<in> set (findall_runs word (dropWhile word cs)).
                   tok \<noteq> [] \<and> (\<forall>x \<in> set tok. word x \<and> x \<in> set (c # cs))"
      using 2(1)[OF True] b by fastforce
    show ?thesis unfolding fw using hd_ok tl_ok by simp
  next
    case False
    then have "findall_runs word (c # cs) = findall_runs word cs" by simp
    then show ?thesis using 2(2)[OF False] by fastforce
  qed
qed

text \<open>
  Claim C9, as stated, at the text \<open>snake_case\<close>: the single token contains the underscore,
  which is a word character of the regular expression and is not alphanumeric.
\<close>

theorem tokenize_underscore_counterexample:
  "\<not> list_all (list_all is_alnum) (tokenize (Some ''snake_case''))"
  by code_simp

text \<open>
  Claim C9, amended. For every input text, over any characters, with \<open>word\<close> the class \<open>\w\<close>
  of the regular expression (letters, digits and the underscore) and \<open>lower_text\<close> the
  lower-casing of the text: \<open>tokenize\<close> returns the empty sequence for \<open>None\<close> and for the
  empty text. Otherwise it returns, in order, the maximal runs of word characters of the
  lower-cased text: every token is non-empty and consists of word characters of the lower-cased
  text, and the lower-cased text is the tokens written in order with separators before, between
  and after them, where no separator contains a word character and the separators between two
  tokens are non-empty. As a function of its argument it is deterministic. The tokenizer of the
  scorers is the instance at the word class and the lower-casing of strings.
\<close>

theorem tokenize_word_runs:
  "tokenize_with word lower_text None = [] \<and> tokenize_with word lower_text (Some []) = []
   \<and> (\<forall>tok \<in> set (tokenize_with word lower_text text). tok \<noteq> [] \<and> (\<forall>c \<in> set tok. word c))
   \<and> (\<forall>tok \<in> set (tokenize_with word lower_text (Some s)).
         \<forall>c \<in> set tok. c \<in> set (lower_text s))
   \<and> (s \<noteq> [] \<longrightarrow>
        (\<exists>seps. length seps = Suc (length (tokenize_with word lower_text (Some s)))
         \<and> (\<forall>sep \<in> set seps. \<forall>c \<in> set sep. \<not> word c)
         \<and> (\<forall>i. 0 < i \<and> i < length (tokenize_with word lower_text (Some s)) \<longrightarrow>
                seps ! i \<noteq> [])
         \<and> interleave seps (tokenize_with word lower_text (Some s)) = lower_text s))
   \<and> tokenize = tokenize_with is_word lower
   \<and> is_word (CHR ''_'')"
proof (intro conjI impI)
  show "tokenize_with word lower_text None = []" by (simp add: tokenize_with_def)
  show "tokenize_with word lower_text (Some []) = []" by (simp add: tokenize_with_def)
  show "\<forall>tok \<in> set (tokenize_with word lower_text text).
          tok \<noteq> [] \<and> (\<forall>c \<in> set tok. word c)"
  proof (cases "text")
    case None
    then show ?thesis by (simp add: tokenize_with_def)
  next
    case (Some u)
    then show ?thesis
      using findall_runs_chars[of word "lower_text u"] by (auto simp: tokenize_with_def)
  qed
  show "\<forall>tok \<in> set (tokenize_with word lower_text (Some s)). \<forall>c \<in> set tok. c \<in> set (lower_text s)"
    using findall_runs_chars[of word "lower_text s"] by (auto simp: tokenize_with_def)
  show "tokenize = tokenize_with is_word lower" by (rule ext) (simp add: tokenize_def)
  show "is_word (CHR ''_'')" by code_simp
next
  assume ne: "s \<noteq> []"
  then have tk: "tokenize_with word lower_text (Some s) = findall_runs word (lower_text s)"
    by (simp add: tokenize_with_def)
  show "\<exists>seps. length seps = Suc (length (tokenize_with word lower_text (Some s)))
         \<and> (\<forall>sep \<in> set seps. \<forall>c \<in> set sep. \<not> word c)
         \<and> (\<forall>i. 0 < i \<and> i < length (tokenize_with word lower_text (Some s)) \<longrightarrow>
                seps ! i \<noteq> [])
         \<and> interleave seps (tokenize_with word lower_text (Some s)) = lower_text s"
  proof (intro exI[of _ "separators word (lower_text s)"] conjI allI impI)
    show "length (separators word (lower_text s))
            = Suc (length (tokenize_with word lower_text (Some s)))"
      unfolding tk by (rule separators_length)
    show "\<forall>sep \<in> set (separators word (lower_text s)). \<forall>c \<in> set sep. \<not> word c"
      by (rule separators_nonword)
    show "interleave (separators word (lower_text s)) (tokenize_with word lower_text (Some s))
            = lower_text s"
      unfolding tk by (rule separators_interleave)
  next
    fix i
    assume "0 < i \<and> i < length (tokenize_with word lower_text (Some s))"
    then show "separators word (lower_text s) ! i \<noteq> []"
      unfolding tk using separators_inner[of i word "lower_text s"] by simp
  qed
qed


theorem tokenize_word_runs_witness:
  "tokenize None = [] \<and> tokens_of ''Ab_c, d!'' = [''ab_c'', ''d'']
   \<and> list_all (\<lambda>tok. tok \<noteq> [] \<and> list_all is_word tok) (tokens_of ''Ab_c, d!'')
   \<and> ''Ab_c, d!'' \<noteq> []
   \<and> interleave [[], '', '', ''!''] (tokens_of ''Ab_c, d!'') = lower ''Ab_c, d!''
   \<and> tokenize_with (\<lambda>n. n \<noteq> (0::nat)) (map (\<lambda>n. n mod 10)) (Some [13, 20, 7, 0, 25])
        = [[3], [7], [5]]
   \<and> tokens_of [CHR ''C'', CHR ''a'', CHR ''f'', CHR 0xC9, CHR 0xD7, CHR ''x'']
        = [[CHR ''c'', CHR ''a'', CHR ''f'', CHR 0xE9], [CHR ''x'']]"
proof -
  have c: "tokens_of [CHR ''C'', CHR ''a'', CHR ''f'', CHR 0xC9, CHR 0xD7, CHR ''x'']
        = [[CHR ''c'', CHR ''a'', CHR ''f'', CHR 0xE9], [CHR ''x'']]"
    by code_simp
  have t: "tokens_of ''Ab_c, d!'' = [''ab_c'', ''d'']" by code_simp
  have l: "lower ''Ab_c, d!'' = ''ab_c, d!''" by code_simp
  have g: "tokenize_with (\<lambda>n. n \<noteq> (0::nat)) (map (\<lambda>n. n mod 10)) (Some [13, 20, 7, 0, 25])
        = [[3], [7], [5]]"
    by (simp add: tokenize_with_def)
  have i: "tokenize = tokenize_with is_word lower"
    using tokenize_word_runs[of is_word lower None "''Ab_c, d!''"] by blast
  have a: "\<forall>tok \<in> set (tokens_of ''Ab_c, d!''). tok \<noteq> [] \<and> (\<forall>c \<in> set tok. is_word c)"
    using tokenize_word_runs[of is_word lower "Some ''Ab_c, d!''" "''Ab_c, d!''"]
    unfolding i by blast
  have n: "tokenize None = []"
    using tokenize_word_runs[of is_word lower None "''Ab_c, d!''"] unfolding i by blast
  show ?thesis using t l g a n c by (simp add: list_all_iff)
qed

section \<open>Which metrics the engine computes\<close>

lemma put_if_same: "put_if c k v m k = (if c then Some v else m k)"
  by (simp add: put_if_def)

lemma put_if_other: "k \<noteq> k' \<Longrightarrow> put_if c k v m k' = m k'"
  by (simp add: put_if_def)

lemma put_if_other': "k' \<noteq> k \<Longrightarrow> put_if c k v m k' = m k'"
  by (simp add: put_if_def)

lemma rouge_prefix:
  "prefix ''rouge'' ''rouge1''" "prefix ''rouge'' ''rouge2''" "prefix ''rouge'' ''rougeL''"
  by (simp_all add: prefix_def)

lemma rouge_selected:
  "''rouge1'' \<in> set ms \<Longrightarrow> list_ex (prefix ''rouge'') ms"
  "''rouge2'' \<in> set ms \<Longrightarrow> list_ex (prefix ''rouge'') ms"
  "''rougeL'' \<in> set ms \<Longrightarrow> list_ex (prefix ''rouge'') ms"
  unfolding list_ex_iff using rouge_prefix by blast+

lemma evaluate_ungated:
  "evaluate ec sel ''coherence'' =
     (if ''coherence'' \<in> set (metrics_to_calculate sel)
      then Some (calculate_coherence (ec_answer ec)) else None)"
  "evaluate ec sel ''relevance'' =
     (if ''relevance'' \<in> set (metrics_to_calculate sel)
      then Some (calculate_relevance (ec_question ec) (ec_answer ec) (ec_context ec)) else None)"
  "evaluate ec sel ''fluency'' =
     (if ''fluency'' \<in> set (metrics_to_calculate sel)
      then Some (calculate_fluency (ec_answer ec)) else None)"
  "evaluate ec sel ''informativeness'' =
     (if ''informativeness'' \<in> set (metrics_to_calculate sel)
      then Some (calculate_informativeness (ec_answer ec)) else None)"
  by (simp_all add: evaluate_def Let_def put_if_same put_if_other)

lemma evaluate_gated:
  "evaluate ec sel ''bleu'' \<noteq> None \<longleftrightarrow>
     ''bleu'' \<in> set (metrics_to_calculate sel) \<and> truthy (ec_expected_answer ec)"
  "evaluate ec sel ''meteor_approx'' \<noteq> None \<longleftrightarrow>
     ''meteor_approx'' \<in> set (metrics_to_calculate sel) \<and> truthy (ec_expected_answer ec)"
  "evaluate ec sel ''length_ratio'' \<noteq> None \<longleftrightarrow>
     ''length_ratio'' \<in> set (metrics_to_calculate sel) \<and> truthy (ec_expected_answer ec)"
  "evaluate ec sel ''word_overlap'' \<noteq> None \<longleftrightarrow>
     ''word_overlap'' \<in> set (metrics_to_calculate sel) \<and> truthy (ec_expected_answer ec)"
  "evaluate ec sel ''sentence_similarity'' \<noteq> None \<longleftrightarrow>
     ''sentence_similarity'' \<in> set (metrics_to_calculate sel) \<and> truthy (ec_expected_answer ec)"
  by (simp_all add: evaluate_def Let_def put_if_same put_if_other)

lemma evaluate_rouge:
  "evaluate ec sel ''rouge1'' \<noteq> None \<longleftrightarrow>
     ''rouge1'' \<in> set (metrics_to_calculate sel) \<and> truthy (ec_expected_answer ec)"
  "evaluate ec sel ''rouge2'' \<noteq> None \<longleftrightarrow>
     ''rouge2'' \<in> set (metrics_to_calculate sel) \<and> truthy (ec_expected_answer ec)"
  "evaluate ec sel ''rougeL'' \<noteq> None \<longleftrightarrow>
     ''rougeL'' \<in> set (metrics_to_calculate sel) \<and> truthy (ec_expected_answer ec)"
  using rouge_selected[of "metrics_to_calculate sel"]
  by (auto simp: evaluate_def Let_def put_if_same put_if_other)

lemma evaluate_unknown:
  "m \<notin> set available_metrics \<Longrightarrow> evaluate ec sel m = None"
  by (simp add: evaluate_def Let_def put_if_other' available_metrics_def)


text \<open>
  Claim C6, as stated, at a request without expected answer whose selection contains
  \<open>meteor_approx\<close>: the metric is selected and is missing from the result.
\<close>

theorem evaluate_meteor_gated_counterexample:
  "''meteor_approx'' \<in> set (metrics_to_calculate (Some [''meteor_approx'', ''fluency'']))
   \<and> evaluate \<lparr>ec_question = ''q'', ec_answer = ''an answer'', ec_context = None,
                 ec_expected_answer = None\<rparr>
        (Some [''meteor_approx'', ''fluency'']) ''meteor_approx'' = None"
  by (simp add: evaluate_def Let_def put_if_same put_if_other metrics_to_calculate_def truthy_def)

text \<open>
  Claim C6, amended. For every evaluation context and every metric selection, the metrics
  engine gates exactly ROUGE-1, ROUGE-2, ROUGE-L, BLEU, the approximate alignment score
  \<open>meteor_approx\<close>, length ratio, word overlap and sentence similarity on the presence of a
  non-empty expected answer: each is in the result exactly when it is selected and the expected
  answer is present. Coherence, relevance, fluency and informativeness are computed whenever
  they are selected, with or without an expected answer. A name outside the catalog of twelve
  metrics is never in the result.
\<close>

theorem evaluate_gating:
  "(evaluate ec sel ''coherence'' =
      (if ''coherence'' \<in> set (metrics_to_calculate sel)
       then Some (calculate_coherence (ec_answer ec)) else None))
   \<and> (evaluate ec sel ''relevance'' =
      (if ''relevance'' \<in> set (metrics_to_calculate sel)
       then Some (calculate_relevance (ec_question ec) (ec_answer ec) (ec_context ec))
       else None))
   \<and> (evaluate ec sel ''fluency'' =
      (if ''fluency'' \<in> set (metrics_to_calculate sel)
       then Some (calculate_fluency (ec_answer ec)) else None))
   \<and> (evaluate ec sel ''informativeness'' =
      (if ''informativeness'' \<in> set (metrics_to_calculate sel)
       then Some (calculate_informativeness (ec_answer ec)) else None))
   \<and> (\<forall>m \<in> {''rouge1'', ''rouge2'', ''rougeL'', ''bleu'', ''meteor_approx'', ''length_ratio'',
              ''word_overlap'', ''sentence_similarity''}.
         evaluate ec sel m \<noteq> None \<longleftrightarrow>
           m \<in> set (metrics_to_calculate sel) \<and> truthy (ec_expected_answer ec))
   \<and> (\<forall>m. m \<notin> set available_metrics \<longrightarrow> evaluate ec sel m = None)"
proof (intro conjI ballI allI impI)
  fix m :: string
  assume "m \<in> {''rouge1'', ''rouge2'', ''rougeL'', ''bleu'', ''meteor_approx'', ''length_ratio'',
              ''word_overlap'', ''sentence_similarity''}"
  then have "m = ''rouge1'' \<or> m = ''rouge2'' \<or> m = ''rougeL'' \<or> m = ''bleu''
     \<or> m = ''meteor_approx'' \<or> m = ''length_ratio'' \<or> m = ''word_overlap''
     \<or> m = ''sentence_similarity''"
    by (simp only: insert_iff empty_iff simp_thms)
  then show "evaluate ec sel m \<noteq> None \<longleftrightarrow>
           m \<in> set (metrics_to_calculate sel) \<and> truthy (ec_expected_answer ec)"
    by (elim disjE) (simp_all only: evaluate_gated evaluate_rouge)
next
  fix m :: string
  assume "m \<notin> set available_metrics"
  then show "evaluate ec sel m = None" by (rule evaluate_unknown)
qed (rule evaluate_ungated)+

theorem evaluate_gating_witness:
  "evaluate \<lparr>ec_question = ''q'', ec_answer = ''an answer'', ec_context = None,
             ec_expected_answer = None\<rparr> None ''coherence'' = Some 0.8
   \<and> evaluate \<lparr>ec_question = ''q'', ec_answer = ''an answer'', ec_context = None,
               ec_expected_answer = None\<rparr> None ''meteor_approx'' = None
   \<and> evaluate \<lparr>ec_question = ''q'', ec_answer = ''an answer'', ec_context = None,
               ec_expected_answer = Some ''the answer''\<rparr> (Some []) ''rouge2'' \<noteq> None
   \<and> evaluate \<lparr>ec_question = ''q'', ec_answer = ''an answer'', ec_context = None,
               ec_expected_answer = Some ''the answer''\<rparr> (Some [''bleu'']) ''rouge2'' = None
   \<and> evaluate \<lparr>ec_question = ''q'', ec_answer = ''an answer'', ec_context = None,
               ec_expected_answer = Some ''the answer''\<rparr> (Some [''accuracy'']) ''accuracy''
        = None"
proof -
  have c: "calculate_coherence ''an answer'' = 0.8" by code_simp
  have a: "''accuracy'' \<notin> set available_metrics" by code_simp
  have m: "metrics_to_calculate None = available_metrics"
    "metrics_to_calculate (Some []) = available_metrics"
    "metrics_to_calculate (Some [''bleu'']) = [''bleu'']"
    by (simp_all add: metrics_to_calculate_def)
  show ?thesis
    using evaluate_gating[of "\<lparr>ec_question = ''q'', ec_answer = ''an answer'', ec_context = None,
             ec_expected_answer = None\<rparr>" None]
      evaluate_gating[of "\<lparr>ec_question = ''q'', ec_answer = ''an answer'', ec_context = None,
             ec_expected_answer = Some ''the answer''\<rparr>" "Some []"]
      evaluate_gating[of "\<lparr>ec_question = ''q'', ec_answer = ''an answer'', ec_context = None,
             ec_expected_answer = Some ''the answer''\<rparr>" "Some [''bleu'']"]
      evaluate_gating[of "\<lparr>ec_question = ''q'', ec_answer = ''an answer'', ec_context = None,
             ec_expected_answer = Some ''the answer''\<rparr>" "Some [''accuracy'']"]
      a
    by (simp add: c m truthy_def available_metrics_def)
qed

section \<open>The fan-out over the frameworks\<close>

lemma update_fresh: "k \<notin> fst ` set al \<Longrightarrow> AList.update k v al = al @ [(k, v)]"
  by (induction al) auto

lemma process_result_scores:
  "fst (fst item) \<notin> fst ` set (framework_scores acc) \<Longrightarrow>
   framework_scores (process_result acc item)
     = framework_scores acc @ [(fst (fst item), entry_of (snd item))]"
  by (cases item; cases "snd item")
     (auto simp: process_result_def entry_of_def update_fresh split: prod.splits)

lemma fold_process_scores:
  "distinct (map fst (map fst items)) \<Longrightarrow>
   fst ` set (framework_scores acc) \<inter> set (map fst (map fst items)) = {} \<Longrightarrow>
   framework_scores (foldl process_result acc items)
     = framework_scores acc @ map (\<lambda>item. (fst (fst item), entry_of (snd item))) items"
proof (induction items arbitrary: acc)
  case Nil
  then show ?case by simp
next
  case (Cons item items)
  have fresh: "fst (fst item) \<notin> fst ` set (framework_scores acc)"
    using Cons.prems(2) by auto
  have step: "framework_scores (process_result acc item)
     = framework_scores acc @ [(fst (fst item), entry_of (snd item))]"
    by (rule process_result_scores[OF fresh])
  have d: "distinct (map fst (map fst items))" using Cons.prems(1) by simp
  have disj: "fst ` set (framework_scores (process_result acc item))
               \<inter> set (map fst (map fst items)) = {}"
    unfolding step using Cons.prems by auto
  show ?case using Cons.IH[OF d disj] step by simp
qed

lemma run_evaluations_scores:
  assumes "distinct (map fst evaluators)"
  shows "framework_scores (run_evaluations evaluators ctx sel)
     = map (\<lambda>(name, ev). (name, entry_of (ev ctx sel))) evaluators"
proof -
  let ?rs = "map (\<lambda>(framework_name, evaluator).
                   run_framework_evaluation framework_name evaluator ctx sel) evaluators"
  have rf: "\<And>n ev. run_framework_evaluation n ev ctx sel = ev ctx sel"
    by (simp add: run_framework_evaluation_def split: sum.splits)
  have m: "map fst (map fst (zip evaluators ?rs)) = map fst evaluators"
    by (simp add: map_fst_zip[of evaluators ?rs, simplified] comp_def)
  have "framework_scores (run_evaluations evaluators ctx sel)
        = map (\<lambda>item. (fst (fst item), entry_of (snd item))) (zip evaluators ?rs)"
    unfolding run_evaluations_def Let_def
    using fold_process_scores[of "zip evaluators ?rs"
        "\<lparr>automatic_metrics = [], framework_scores = []\<rparr>"] assms m
    by simp
  also have "\<dots> = map (\<lambda>(name, ev). (name, entry_of (ev ctx sel))) evaluators"
    by (induction evaluators) (auto simp: rf)
  finally show ?thesis .
qed


text \<open>
  Claim C1. For every evaluation context and every registry of \<open>N\<close> frameworks (with distinct
  names, as the keys of a dictionary are), the fan-out returns an aggregated result with one
  entry per framework, in the order of the registry: the error entry with the exception's
  message for a framework whose call raises, and the framework's own result otherwise. So when
  exactly one framework raises, its entry is the error entry and the other \<open>N - 1\<close> entries
  are the results of their frameworks, unaffected; and when every framework raises, every entry
  is an error entry. The model of the fan-out has no raising branch, as the source has none.
\<close>

theorem fan_out_isolates_failures:
  assumes "distinct (map fst evaluators)"
  shows "framework_scores (run_evaluations evaluators ctx sel)
           = map (\<lambda>(name, ev). (name, case ev ctx sel of Inl e \<Rightarrow> error_entry e | Inr r \<Rightarrow> r))
                 evaluators
    \<and> length (framework_scores (run_evaluations evaluators ctx sel)) = length evaluators
    \<and> (\<forall>i < length evaluators. \<forall>e.
          snd (evaluators ! i) ctx sel = Inl e
          \<and> (\<forall>j < length evaluators. j \<noteq> i \<longrightarrow> (\<exists>r. snd (evaluators ! j) ctx sel = Inr r))
          \<longrightarrow> snd (framework_scores (run_evaluations evaluators ctx sel) ! i) = error_entry e
            \<and> (\<forall>j < length evaluators. j \<noteq> i \<longrightarrow>
                  snd (evaluators ! j) ctx sel
                    = Inr (snd (framework_scores (run_evaluations evaluators ctx sel) ! j))))
    \<and> ((\<forall>i < length evaluators. \<exists>e. snd (evaluators ! i) ctx sel = Inl e) \<longrightarrow>
          (\<forall>entry \<in> set (framework_scores (run_evaluations evaluators ctx sel)).
             \<exists>e. snd entry = error_entry e))"
proof -
  let ?fs = "framework_scores (run_evaluations evaluators ctx sel)"
  have eq: "?fs = map (\<lambda>(name, ev). (name, entry_of (ev ctx sel))) evaluators"
    by (rule run_evaluations_scores[OF assms])
  have nth: "\<And>i. i < length evaluators \<Longrightarrow>
               snd (?fs ! i) = entry_of (snd (evaluators ! i) ctx sel)"
    unfolding eq by (simp add: case_prod_beta)
  have a: "?fs = map (\<lambda>(name, ev). (name, case ev ctx sel of Inl e \<Rightarrow> error_entry e | Inr r \<Rightarrow> r))
                     evaluators"
    unfolding eq entry_of_def ..
  have b: "length ?fs = length evaluators" unfolding eq by simp
  have c: "\<forall>i < length evaluators. \<forall>e.
          snd (evaluators ! i) ctx sel = Inl e
          \<and> (\<forall>j < length evaluators. j \<noteq> i \<longrightarrow> (\<exists>r. snd (evaluators ! j) ctx sel = Inr r))
          \<longrightarrow> snd (?fs ! i) = error_entry e
            \<and> (\<forall>j < length evaluators. j \<noteq> i \<longrightarrow>
                  snd (evaluators ! j) ctx sel = Inr (snd (?fs ! j)))"
  proof (intro allI impI, elim conjE)
    fix i e
    assume i: "i < length evaluators" and fail: "snd (evaluators ! i) ctx sel = Inl e"
      and others: "\<forall>j < length evaluators. j \<noteq> i \<longrightarrow> (\<exists>r. snd (evaluators ! j) ctx sel = Inr r)"
    have "snd (?fs ! i) = error_entry e" using nth[OF i] fail by (simp add: entry_of_def)
    moreover have "\<forall>j < length evaluators. j \<noteq> i \<longrightarrow>
                  snd (evaluators ! j) ctx sel = Inr (snd (?fs ! j))"
    proof (intro allI impI)
      fix j
      assume j: "j < length evaluators" "j \<noteq> i"
      then obtain r where r: "snd (evaluators ! j) ctx sel = Inr r" using others by blast
      then show "snd (evaluators ! j) ctx sel = Inr (snd (?fs ! j))"
        using nth[OF j(1)] by (simp add: entry_of_def)
    qed
    ultimately show "snd (?fs ! i) = error_entry e
            \<and> (\<forall>j < length evaluators. j \<noteq> i \<longrightarrow>
                  snd (evaluators ! j) ctx sel = Inr (snd (?fs ! j)))" ..
  qed
  have d: "(\<forall>i < length evaluators. \<exists>e. snd (evaluators ! i) ctx sel = Inl e) \<longrightarrow>
          (\<forall>entry \<in> set ?fs. \<exists>e. snd entry = error_entry e)"
  proof (intro impI ballI)
    fix entry
    assume all: "\<forall>i < length evaluators. \<exists>e. snd (evaluators ! i) ctx sel = Inl e"
      and "entry \<in> set ?fs"
    then obtain i where i: "i < length ?fs" "entry = ?fs ! i" by (auto simp: in_set_conv_nth)
    then have il: "i < length evaluators" using b by simp
    then obtain e where "snd (evaluators ! i) ctx sel = Inl e" using all by blast
    then have "snd (?fs ! i) = error_entry e" using nth[OF il] by (simp add: entry_of_def)
    then show "\<exists>e. snd entry = error_entry e" using i by blast
  qed
  show ?thesis by (intro conjI) (rule a, rule b, rule c, rule d)
qed

theorem fan_out_isolates_failures_witness:
  "distinct (map fst [(''ragas'', \<lambda>c s. Inl ''no api key''),
                      (''basic'', \<lambda>c s. Inr [(''coherence'', PFloat 0.8)])])
   \<and> framework_scores
        (run_evaluations [(''ragas'', \<lambda>c s. Inl ''no api key''),
                          (''basic'', \<lambda>c s. Inr [(''coherence'', PFloat 0.8)])]
           demo_context None)
      = [(''ragas'', [(''error'', PStr ''no api key'')]),
         (''basic'', [(''coherence'', PFloat 0.8)])]
   \<and> framework_scores
        (run_evaluations [(''ragas'', \<lambda>c s. Inl ''no api key''),
                          (''basic'', \<lambda>c s. Inl ''out of memory'')]
           demo_context None)
      = [(''ragas'', [(''error'', PStr ''no api key'')]),
         (''basic'', [(''error'', PStr ''out of memory'')])]"
proof -
  have d1: "distinct (map fst [(''ragas'', (\<lambda>c s. Inl ''no api key'') :: evaluator),
                      (''basic'', \<lambda>c s. Inr [(''coherence'', PFloat 0.8)])])"
    by simp
  have d2: "distinct (map fst [(''ragas'', (\<lambda>c s. Inl ''no api key'') :: evaluator),
                      (''basic'', \<lambda>c s. Inl ''out of memory'')])"
    by simp
  show ?thesis
    using fan_out_isolates_failures[OF d1, of demo_context None, THEN conjunct1]
      fan_out_isolates_failures[OF d2, of demo_context None, THEN conjunct1]
    by (simp add: error_entry_def)
qed

section \<open>The output of the bulk evaluation\<close>

lemma batch_items:
  "map (\<lambda>(j, result). case result of
                     Inl e \<Rightarrow> FailedItem ''error'' (i + j) e (batch ! j)
                   | Inr r \<Rightarrow> Evaluated r)
       (enumerate 0 (map ev batch))
   = map (bulk_item ev) (enumerate i batch)"
  by (rule nth_equalityI) (simp_all add: nth_enumerate_eq bulk_item_def split: sum.splits)

lemma process_batch_ok:
  assumes "callback_returns cb"
  shows "process_batch ev evs bs cb results i
           = results @ map (bulk_item ev) (enumerate i (take bs (drop i evs)))"
proof -
  have "(case cb of None \<Rightarrow> Inr () | Some callback \<Rightarrow> callback p t g) = Inr ()" for p t g
    using assms by (cases cb) (simp_all add: callback_returns_def)
  then show ?thesis by (simp add: process_batch_def Let_def batch_items)
qed

lemma enumerate_take_add:
  "enumerate 0 (take (i + n) xs) = enumerate 0 (take i xs) @ enumerate i (take n (drop i xs))"
proof (cases "i \<le> length xs")
  case True
  then have "length (take i xs) = i" by simp
  then show ?thesis by (simp add: take_add enumerate_append_eq)
next
  case False
  then show ?thesis by simp
qed

lemma batches_fold:
  assumes "callback_returns cb"
  shows "foldl (process_batch ev evs bs cb) [] (map (\<lambda>k. k * bs) [0 ..< m])
           = map (bulk_item ev) (enumerate 0 (take (m * bs) evs))"
proof (induction m)
  case 0
  then show ?case by simp
next
  case (Suc m)
  have "enumerate 0 (take (m * bs + bs) evs)
          = enumerate 0 (take (m * bs) evs) @ enumerate (m * bs) (take bs (drop (m * bs) evs))"
    by (rule enumerate_take_add)
  then show ?case using Suc by (simp add: process_batch_ok[OF assms] add.commute)
qed

lemma batches_cover: "0 < bs \<Longrightarrow> k \<le> ((k + bs - 1) div bs) * (bs::nat)"
proof -
  assume pos: "0 < bs"
  have "(k + bs - 1) div bs * bs + (k + bs - 1) mod bs = k + bs - 1" by simp
  moreover have "(k + bs - 1) mod bs < bs" using pos by simp
  ultimately show ?thesis by linarith
qed

lemma evaluate_bulk_items:
  assumes "1 \<le> batch_size" "callback_returns cb"
  shows "evaluate_bulk ev evs batch_size cb = Inr (map (bulk_item ev) (enumerate 0 evs))"
proof -
  let ?bs = "nat batch_size"
  have pos: "0 < ?bs" using assms(1) by simp
  have r: "py_range (length evs) batch_size
             = Inr (map (\<lambda>k. k * ?bs) [0 ..< (length evs + ?bs - 1) div ?bs])"
    using assms(1) by (simp add: py_range_def)
  have "take (((length evs + ?bs - 1) div ?bs) * ?bs) evs = evs"
    using batches_cover[OF pos, of "length evs"] by simp
  then show ?thesis
    unfolding evaluate_bulk_def r using batches_fold[OF assms(2), of ev evs ?bs] by simp
qed


text \<open>
  Without a progress callback, or with one whose call returns, and with a batch size of at
  least 1, the output has one element per input, at the input's position.
\<close>

lemma evaluate_bulk_when_callback_returns:
  assumes "1 \<le> batch_size" and "callback_returns progress_callback"
  shows "evaluate_bulk evaluate_single evaluations batch_size progress_callback
           = Inr (map (\<lambda>(i, c). case evaluate_single c of
                                    Inl e \<Rightarrow> FailedItem ''error'' i e c
                                  | Inr r \<Rightarrow> Evaluated r)
                      (enumerate 0 evaluations))
    \<and> (\<exists>out. evaluate_bulk evaluate_single evaluations batch_size progress_callback = Inr out
           \<and> length out = length evaluations
           \<and> (\<forall>i < length evaluations.
                 (\<forall>e. evaluate_single (evaluations ! i) = Inl e \<longrightarrow>
                        out ! i = FailedItem ''error'' i e (evaluations ! i)
                        \<and> bulk_status (out ! i) = ''failed'')
                 \<and> (\<forall>r. evaluate_single (evaluations ! i) = Inr r \<longrightarrow> out ! i = Evaluated r)))"
proof -
  let ?out = "map (bulk_item evaluate_single) (enumerate 0 evaluations)"
  have eq: "evaluate_bulk evaluate_single evaluations batch_size progress_callback = Inr ?out"
    by (rule evaluate_bulk_items[OF assms])
  have fn: "bulk_item evaluate_single
              = (\<lambda>(i, c). case evaluate_single c of
                             Inl e \<Rightarrow> FailedItem ''error'' i e c
                           | Inr r \<Rightarrow> Evaluated r)"
    by (rule ext) (simp add: bulk_item_def case_prod_beta)
  have len: "length ?out = length evaluations" by simp
  have nth: "?out ! i = bulk_item evaluate_single (i, evaluations ! i)"
    if "i < length evaluations" for i
    using that by (simp add: nth_enumerate_eq)
  have items: "\<forall>i < length evaluations.
                 (\<forall>e. evaluate_single (evaluations ! i) = Inl e \<longrightarrow>
                        ?out ! i = FailedItem ''error'' i e (evaluations ! i)
                        \<and> bulk_status (?out ! i) = ''failed'')
                 \<and> (\<forall>r. evaluate_single (evaluations ! i) = Inr r \<longrightarrow> ?out ! i = Evaluated r)"
  proof (intro allI impI conjI)
    fix i e
    assume "i < length evaluations" "evaluate_single (evaluations ! i) = Inl e"
    then show "?out ! i = FailedItem ''error'' i e (evaluations ! i)"
      and "bulk_status (?out ! i) = ''failed''"
      using nth[of i] by (simp_all add: bulk_item_def bulk_status_def)
  next
    fix i r
    assume "i < length evaluations" "evaluate_single (evaluations ! i) = Inr r"
    then show "?out ! i = Evaluated r" using nth[of i] by (simp add: bulk_item_def)
  qed
  have first: "evaluate_bulk evaluate_single evaluations batch_size progress_callback
           = Inr (map (\<lambda>(i, c). case evaluate_single c of
                                    Inl e \<Rightarrow> FailedItem ''error'' i e c
                                  | Inr r \<Rightarrow> Evaluated r)
                      (enumerate 0 evaluations))"
    using eq unfolding fn .
  show ?thesis
    by (intro conjI exI[of _ ?out]) (rule first, rule eq, rule len, rule items)
qed

text \<open>
  Claim C3. For every input sequence of \<open>k\<close> evaluation contexts and every batch size,
  \<open>evaluate_bulk\<close> returns an output sequence of length exactly \<open>k\<close> whose elements
  correspond positionally to the inputs, an error record for an item that fails and the item's
  own result otherwise. The code breaks this when awaiting the progress callback raises (any
  exception of the callback, or the \<open>TypeError\<close> of awaiting the result of a plain synchronous
  function): the results of the batch are already appended when the \<open>except\<close> branch appends
  one \<open>batch_error\<close> record per item of the batch. Here three contexts, none of which fails,
  in batches of two give six output elements.
\<close>

theorem evaluate_bulk_raising_callback:
  "evaluate_bulk (\<lambda>c. Inr (c + 10) :: string + nat) [1, 2, 3 :: nat] 2
     (Some (\<lambda>processed total progress. Inl ''TypeError''))
   = Inr [Evaluated 11, Evaluated 12,
          FailedItem ''batch_error'' 0 ''Batch processing failed: TypeError'' 1,
          FailedItem ''batch_error'' 1 ''Batch processing failed: TypeError'' 2,
          Evaluated 13,
          FailedItem ''batch_error'' 2 ''Batch processing failed: TypeError'' 3]
   \<and> evaluate_bulk (\<lambda>c. Inr (c + 10) :: string + nat) [1, 2, 3 :: nat] 2 None
   = Inr [Evaluated 11, Evaluated 12, Evaluated 13]"
  by code_simp

section \<open>The winner of a comparison\<close>

lemma ranking_key_le: "ranking_key a \<le> ranking_key b \<longleftrightarrow> ranks_before a b"
  by (auto simp: ranking_key_def ranks_before_def)

lemma successful_nil:
  "successful_comparisons cs = [] \<longleftrightarrow> (\<forall>c \<in> set cs. status c \<noteq> ''completed'')"
  by (induction cs)
     (auto simp: successful_comparisons_def List.map_filter_simps status_def split: comparison.splits)

lemma successful_set:
  "e \<in> set (successful_comparisons cs) \<longleftrightarrow> CompletedEntry e \<in> set cs"
  by (induction cs)
     (auto simp: successful_comparisons_def List.map_filter_simps split: comparison.splits)

lemma sort_key_head:
  assumes "sort_key f xs = w # rest"
  shows "w \<in> set xs \<and> (\<forall>x \<in> set xs. f w \<le> f x)"
proof -
  have s: "sorted (map f (w # rest))" using sorted_sort_key[of f xs] assms by simp
  have m: "set (w # rest) = set xs" using set_sort[of f xs] assms by simp
  have "\<forall>x \<in> set (w # rest). f w \<le> f x" using s by auto
  then show ?thesis using m by auto
qed

lemma determine_winner_cases:
  "(successful_comparisons cs = [] \<and> determine_winner fm cs = None)
   \<or> (\<exists>m rest. sort_key ranking_key (map (score_entry fm) (successful_comparisons cs)) = m # rest
         \<and> determine_winner fm cs
             = Some \<lparr>winner_model = ms_model m, winner_score = ms_score m,
                      winner_second = (case rest of [] \<Rightarrow> None
                         | second_best # others \<Rightarrow>
                             Some (ms_score second_best, ms_model second_best))\<rparr>)"
proof (cases "successful_comparisons cs = []")
  case True
  then show ?thesis by (simp add: determine_winner_def)
next
  case False
  let ?ms = "map (score_entry fm) (successful_comparisons cs)"
  have "sort_key ranking_key ?ms \<noteq> []"
  proof
    assume "sort_key ranking_key ?ms = []"
    then have "length (sort_key ranking_key ?ms) = 0" by simp
    then have "length ?ms = 0" by (simp only: length_sort)
    then show False using False by simp
  qed
  then obtain m rest where mr: "sort_key ranking_key ?ms = m # rest"
    by (cases "sort_key ranking_key ?ms") auto
  then show ?thesis using False by (simp add: determine_winner_def Let_def)
qed

lemma winner_none_iff:
  "determine_winner fm cs = None \<longleftrightarrow> (\<forall>c \<in> set cs. status c \<noteq> ''completed'')"
  using determine_winner_cases[of cs fm] successful_nil[of cs] by auto

lemma winner_is_top:
  assumes "determine_winner fm cs = Some w"
  shows "\<exists>e. CompletedEntry e \<in> set cs \<and> winner_model w = cmp_model_name e
            \<and> winner_score w = ms_score (score_entry fm e)
            \<and> (\<forall>e'. CompletedEntry e' \<in> set cs \<longrightarrow>
                   ranks_before (score_entry fm e) (score_entry fm e'))"
proof -
  let ?ms = "map (score_entry fm) (successful_comparisons cs)"
  from determine_winner_cases[of cs fm] assms obtain m rest where
    mr: "sort_key ranking_key ?ms = m # rest"
    and w: "winner_model w = ms_model m" "winner_score w = ms_score m"
    by auto
  have top: "m \<in> set ?ms \<and> (\<forall>x \<in> set ?ms. ranking_key m \<le> ranking_key x)"
    by (rule sort_key_head[OF mr])
  then obtain e where e: "e \<in> set (successful_comparisons cs)" "m = score_entry fm e" by auto
  have "\<forall>e'. CompletedEntry e' \<in> set cs \<longrightarrow> ranks_before (score_entry fm e) (score_entry fm e')"
  proof (intro allI impI)
    fix e'
    assume "CompletedEntry e' \<in> set cs"
    then have "score_entry fm e' \<in> set ?ms" by (simp add: successful_set)
    then have "ranking_key m \<le> ranking_key (score_entry fm e')" using top by blast
    then show "ranks_before (score_entry fm e) (score_entry fm e')"
      unfolding e(2) by (simp only: ranking_key_le)
  qed
  moreover have "CompletedEntry e \<in> set cs" using e(1) by (simp add: successful_set)
  moreover have "winner_model w = cmp_model_name e" "winner_score w = ms_score (score_entry fm e)"
    using w e(2) by (simp_all add: score_entry_def)
  ultimately show ?thesis by blast
qed

lemma map_filter_snd:
  "List.map_filter (\<lambda>a. f (snd a)) items = List.map_filter f (map snd items)"
  by (induction items) (auto simp: List.map_filter_simps split: option.splits)

lemma all_scores_values:
  "all_scores e
     = List.map_filter numeric (map snd (cmp_metrics e))
       @ concat (map (\<lambda>scores. List.map_filter numeric (map snd scores))
                     (map snd (cmp_framework_scores e)))"
proof -
  have a: "(\<lambda>(metric_name :: string, score). numeric score) = (\<lambda>a. numeric (snd a))"
    by (rule ext) (simp add: case_prod_beta)
  have b: "(\<lambda>(framework :: string, scores :: pydict). List.map_filter (\<lambda>a. numeric (snd a)) scores)
             = (\<lambda>x. List.map_filter numeric (map snd (snd x)))"
    by (rule ext) (simp add: case_prod_beta map_filter_snd)
  show ?thesis
    unfolding all_scores_def a b by (simp add: map_filter_snd comp_def)
qed

lemma score_entry_fields:
  "score_entry fm e =
     \<lparr>ms_model = cmp_model_name e,
      ms_score =
        (if List.map_filter numeric (map snd (cmp_metrics e))
              @ concat (map (\<lambda>scores. List.map_filter numeric (map snd scores))
                            (map snd (cmp_framework_scores e))) = []
         then 0
         else fm (List.map_filter numeric (map snd (cmp_metrics e))
                  @ concat (map (\<lambda>scores. List.map_filter numeric (map snd scores))
                                (map snd (cmp_framework_scores e))))),
      ms_response_time = cmp_response_time e,
      ms_cost = (case cmp_cost e of None \<Rightarrow> 0 | Some c \<Rightarrow> c)\<rparr>"
  unfolding score_entry_def overall_score_def all_scores_values by simp

lemma scenario_d_winner:
  "map_option winner_model (determine_winner fm scenario_d) = Some ''B''"
  by (simp add: determine_winner_def scenario_d_def successful_comparisons_def
        List.map_filter_simps score_entry_def overall_score_def all_scores_def
        ranking_key_def Let_def)

text \<open>
  Claim C2. For every list of comparison entries, and whatever the rounding of the float
  computation \<open>sum(xs) / len(xs)\<close> is: the composite score of a completed model is that
  mean, the arithmetic mean \<open>exact_mean\<close> when nothing is rounded, of the numeric values among
  its flattened metrics followed by those of each of its per-framework score maps (floats and
  integers as they are, a boolean as 1 or 0, as Python's \<open>isinstance\<close> has it; \<open>None\<close> and
  strings are left out), and it is 0 when there is no numeric value. The winner is \<open>None\<close>
  exactly when no entry is completed. Otherwise the winner is a completed model that ranks
  before every completed model in the lexicographic order of higher composite score, then
  shorter response time, then lower cost (an absent cost counts as 0). For two completed models
  of composite score 0.9, \<open>A\<close> with 2 seconds at cost 0.01 and \<open>B\<close> with 1 second at cost
  0.02, the winner is \<open>B\<close>.
\<close>

theorem winner_ranking:
  "(determine_winner float_mean comparisons = None \<longleftrightarrow>
      (\<forall>c \<in> set comparisons. status c \<noteq> ''completed''))
   \<and> (\<forall>w. determine_winner float_mean comparisons = Some w \<longrightarrow>
        (\<exists>e. CompletedEntry e \<in> set comparisons
           \<and> winner_model w = cmp_model_name e
           \<and> winner_score w = ms_score (score_entry float_mean e)
           \<and> (\<forall>e'. CompletedEntry e' \<in> set comparisons \<longrightarrow>
                 ms_score (score_entry float_mean e) > ms_score (score_entry float_mean e')
                 \<or> (ms_score (score_entry float_mean e) = ms_score (score_entry float_mean e')
                     \<and> (cmp_response_time e < cmp_response_time e'
                         \<or> (cmp_response_time e = cmp_response_time e'
                             \<and> ms_cost (score_entry float_mean e)
                                 \<le> ms_cost (score_entry float_mean e')))))))
   \<and> (\<forall>e. score_entry float_mean e =
         \<lparr>ms_model = cmp_model_name e,
          ms_score =
            (if List.map_filter numeric (map snd (cmp_metrics e))
                  @ concat (map (\<lambda>scores. List.map_filter numeric (map snd scores))
                                (map snd (cmp_framework_scores e))) = []
             then 0
             else float_mean (List.map_filter numeric (map snd (cmp_metrics e))
                      @ concat (map (\<lambda>scores. List.map_filter numeric (map snd scores))
                                    (map snd (cmp_framework_scores e))))),
          ms_response_time = cmp_response_time e,
          ms_cost = (case cmp_cost e of None \<Rightarrow> 0 | Some c \<Rightarrow> c)\<rparr>)
   \<and> (\<forall>xs. exact_mean xs = sum_list xs / real (length xs))
   \<and> (\<forall>e. ms_score (score_entry exact_mean e) =
            (if List.map_filter numeric (map snd (cmp_metrics e))
                  @ concat (map (\<lambda>scores. List.map_filter numeric (map snd scores))
                                (map snd (cmp_framework_scores e))) = []
             then 0
             else sum_list (List.map_filter numeric (map snd (cmp_metrics e))
                      @ concat (map (\<lambda>scores. List.map_filter numeric (map snd scores))
                                    (map snd (cmp_framework_scores e))))
                  / real (length (List.map_filter numeric (map snd (cmp_metrics e))
                      @ concat (map (\<lambda>scores. List.map_filter numeric (map snd scores))
                                    (map snd (cmp_framework_scores e)))))))
   \<and> (\<forall>x. numeric (PFloat x) = Some x)
   \<and> (\<forall>i. numeric (PInt i) = Some (real_of_int i))
   \<and> (\<forall>b. numeric (PBool b) = Some (if b then 1 else 0))
   \<and> numeric PNone = None
   \<and> (\<forall>s. numeric (PStr s) = None)
   \<and> (\<forall>e. status (CompletedEntry e) = ''completed'')
   \<and> (\<forall>name err. status (FailedEntry name err) = ''failed'')
   \<and> map_option winner_model (determine_winner float_mean scenario_d) = Some ''B''"
proof (intro conjI allI impI)
  show "determine_winner float_mean comparisons = None \<longleftrightarrow>
      (\<forall>c \<in> set comparisons. status c \<noteq> ''completed'')"
    by (rule winner_none_iff)
next
  fix w
  assume "determine_winner float_mean comparisons = Some w"
  then obtain e where e: "CompletedEntry e \<in> set comparisons"
      "winner_model w = cmp_model_name e" "winner_score w = ms_score (score_entry float_mean e)"
      "\<forall>e'. CompletedEntry e' \<in> set comparisons \<longrightarrow>
             ranks_before (score_entry float_mean e) (score_entry float_mean e')"
    using winner_is_top[of float_mean comparisons w] by blast
  have rt: "ms_response_time (score_entry float_mean x) = cmp_response_time x" for x
    by (simp add: score_entry_def)
  have "\<forall>e'. CompletedEntry e' \<in> set comparisons \<longrightarrow>
                 ms_score (score_entry float_mean e) > ms_score (score_entry float_mean e')
                 \<or> (ms_score (score_entry float_mean e) = ms_score (score_entry float_mean e')
                     \<and> (cmp_response_time e < cmp_response_time e'
                         \<or> (cmp_response_time e = cmp_response_time e'
                             \<and> ms_cost (score_entry float_mean e)
                                 \<le> ms_cost (score_entry float_mean e'))))"
    using e(4) unfolding ranks_before_def rt .
  then show "\<exists>e. CompletedEntry e \<in> set comparisons
           \<and> winner_model w = cmp_model_name e
           \<and> winner_score w = ms_score (score_entry float_mean e)
           \<and> (\<forall>e'. CompletedEntry e' \<in> set comparisons \<longrightarrow>
                 ms_score (score_entry float_mean e) > ms_score (score_entry float_mean e')
                 \<or> (ms_score (score_entry float_mean e) = ms_score (score_entry float_mean e')
                     \<and> (cmp_response_time e < cmp_response_time e'
                         \<or> (cmp_response_time e = cmp_response_time e'
                             \<and> ms_cost (score_entry float_mean e)
                                 \<le> ms_cost (score_entry float_mean e')))))"
    using e(1,2,3) by (intro exI[of _ e] conjI)
next
  fix e
  show "score_entry float_mean e =
         \<lparr>ms_model = cmp_model_name e,
          ms_score =
            (if List.map_filter numeric (map snd (cmp_metrics e))
                  @ concat (map (\<lambda>scores. List.map_filter numeric (map snd scores))
                                (map snd (cmp_framework_scores e))) = []
             then 0
             else float_mean (List.map_filter numeric (map snd (cmp_metrics e))
                      @ concat (map (\<lambda>scores. List.map_filter numeric (map snd scores))
                                    (map snd (cmp_framework_scores e))))),
          ms_response_time = cmp_response_time e,
          ms_cost = (case cmp_cost e of None \<Rightarrow> 0 | Some c \<Rightarrow> c)\<rparr>"
    by (rule score_entry_fields)
next
  fix xs
  show "exact_mean xs = sum_list xs / real (length xs)" by (simp add: exact_mean_def)
next
  fix e
  show "ms_score (score_entry exact_mean e) =
            (if List.map_filter numeric (map snd (cmp_metrics e))
                  @ concat (map (\<lambda>scores. List.map_filter numeric (map snd scores))
                                (map snd (cmp_framework_scores e))) = []
             then 0
             else sum_list (List.map_filter numeric (map snd (cmp_metrics e))
                      @ concat (map (\<lambda>scores. List.map_filter numeric (map snd scores))
                                    (map snd (cmp_framework_scores e))))
                  / real (length (List.map_filter numeric (map snd (cmp_metrics e))
                      @ concat (map (\<lambda>scores. List.map_filter numeric (map snd scores))
                                    (map snd (cmp_framework_scores e))))))"
    unfolding score_entry_fields[of exact_mean e] exact_mean_def by simp
next
  show "map_option winner_model (determine_winner float_mean scenario_d) = Some ''B''"
    by (rule scenario_d_winner)
qed (simp_all add: status_def)

theorem winner_ranking_witness:
  "determine_winner exact_mean scenario_d
     = Some \<lparr>winner_model = ''B'', winner_score = 9 / 10, winner_second = Some (9 / 10, ''A'')\<rparr>
   \<and> ms_score (score_entry exact_mean mixed_entry) = 6 / 5
   \<and> determine_winner exact_mean [FailedEntry ''C'' ''timeout''] = None
   \<and> map_option winner_model
        (determine_winner exact_mean [FailedEntry ''C'' ''timeout'', CompletedEntry mixed_entry])
      = Some ''M''
   \<and> map_option winner_model (determine_winner (\<lambda>xs. 0) scenario_d) = Some ''B''"
proof -
  have w: "determine_winner exact_mean scenario_d
     = Some \<lparr>winner_model = ''B'', winner_score = 9 / 10, winner_second = Some (9 / 10, ''A'')\<rparr>"
    by code_simp
  have m: "ms_score (score_entry exact_mean mixed_entry) = 6 / 5"
    using winner_ranking[of exact_mean "[]"]
    by (simp add: mixed_entry_def List.map_filter_simps)
  have f: "\<forall>c \<in> set [FailedEntry ''C'' ''timeout'']. status c \<noteq> ''completed''"
    by (simp add: status_def)
  have n: "determine_winner exact_mean [FailedEntry ''C'' ''timeout''] = None"
    using winner_ranking[of exact_mean "[FailedEntry ''C'' ''timeout'']"] f by blast
  have c: "map_option winner_model
        (determine_winner exact_mean [FailedEntry ''C'' ''timeout'', CompletedEntry mixed_entry])
      = Some ''M''"
    by code_simp
  have d: "map_option winner_model (determine_winner (\<lambda>xs. 0) scenario_d) = Some ''B''"
    using winner_ranking[of "\<lambda>xs. 0" "[]"] by blast
  show ?thesis using w m n c d by blast
qed

end
